theory Spec2Isabelle
  imports Complex_Main "HOL-Library.List_Lexorder" "HOL-Library.Char_ord"
begin

section \<open>HTTP data\<close>

text \<open>
  The request core of the WooCommerce client: \<^verbatim>\<open>Client.NewRequest\<close>,
  \<^verbatim>\<open>Client.doGetHeaders\<close>, \<^verbatim>\<open>CheckResponseError\<close>,
  \<^verbatim>\<open>wrapSpecificError\<close> and \<^verbatim>\<open>extractPagination\<close>.

  Go strings and byte slices are \<open>string\<close> (a list of bytes). Go's \<^verbatim>\<open>int\<close> is
  \<open>int\<close>: the only arithmetic on it is \<^verbatim>\<open>c.attempts++\<close>, which starts from 0 and runs at
  most \<open>max retries 1\<close> times, and \<^verbatim>\<open>retries--\<close> on a value above 1, so neither can
  leave the 64-bit range. The one product that can wrap (the sleep duration) is
  reduced explicitly.
\<close>

text \<open>
  \<^verbatim>\<open>http.Header\<close> is \<^verbatim>\<open>map[string][]string\<close>. All keys the client uses
  (\<^verbatim>\<open>Content-Type\<close>, \<^verbatim>\<open>Accept\<close>, \<^verbatim>\<open>User-Agent\<close>, \<^verbatim>\<open>Authorization\<close>,
  \<^verbatim>\<open>Retry-After\<close>) are already in canonical form, so key canonicalisation is the
  identity on them.
\<close>

type_synonym header = "string \<rightharpoonup> string list"

definition Header_Get :: "header \<Rightarrow> string \<Rightarrow> string" where
  "Header_Get h k = (case h k of None \<Rightarrow> [] | Some [] \<Rightarrow> [] | Some (v # _) \<Rightarrow> v)"

definition Header_Add :: "string \<Rightarrow> string \<Rightarrow> header \<Rightarrow> header" where
  "Header_Add k v h = h(k \<mapsto> (case h k of None \<Rightarrow> [v] | Some vs \<Rightarrow> vs @ [v]))"

definition Header_Set :: "string \<Rightarrow> string \<Rightarrow> header \<Rightarrow> header" where
  "Header_Set k v h = h(k \<mapsto> [v])"

text \<open>
  An \<^verbatim>\<open>io.ReadCloser\<close>: the bytes it yields, then end of file or a read error.
  \<^verbatim>\<open>io.ReadAll\<close> returns the bytes read so far together with the error, if any.
\<close>

datatype reader = Reader string "string option"

fun ReadAll :: "reader \<Rightarrow> string \<times> string option" where
  "ReadAll (Reader b e) = (b, e)"

record http_response =
  StatusCode :: int
  Header :: header
  Body :: reader

record url =
  Scheme :: string
  Host :: string
  Path :: string
  RawQuery :: string

record http_request =
  Method :: string
  URL :: url
  reqHeader :: header
  reqBody :: string

text \<open>
  The value of \<^verbatim>\<open>c.Client\<close>: the plain client \<^verbatim>\<open>NewClient\<close> installs
  (\<^verbatim>\<open>&http.Client{Timeout: 30s}\<close>), or the client \<^verbatim>\<open>oauth1.NewConfig(key, secret).Client(
  NoContext, NewToken("", ""))\<close> returns, whose transport signs every request with the
  consumer key and secret. The signing itself is code of the oauth1 library.
\<close>

datatype http_client = DefaultHttpClient | OAuth1Client string string

section \<open>Errors\<close>

record ResponseError =
  Status :: int
  Message :: string
  Data :: "string list"

text \<open>
  The Go \<^verbatim>\<open>error\<close> values the core returns. \<open>HttpClientError\<close> is the error of
  \<^verbatim>\<open>c.Client.Do\<close>, \<open>BodyReadError\<close> the error of \<^verbatim>\<open>io.ReadAll\<close>, both passed on as
  they are. \<open>ResponseDecodingError body message status\<close> has the three fields of the Go
  struct in its order. \<open>RateLimitError\<close> embeds a \<open>ResponseError\<close> and adds
  \<^verbatim>\<open>RetryAfter int\<close>. \<open>JsonDecodeError\<close> is the error of decoding a successful body
  into the caller's value; \<open>LibraryError\<close> is an error of \<^verbatim>\<open>net/url\<close>, \<^verbatim>\<open>strconv\<close>
  or \<^verbatim>\<open>encoding/json\<close> returned unchanged. \<open>InvalidMethodError m\<close> is the error
  \<^verbatim>\<open>fmt.Errorf("net/http: invalid method %q", m)\<close> of \<^verbatim>\<open>http.NewRequest\<close>; it keeps the
  method in place of the text that quotes it.
\<close>

datatype error =
    HttpClientError string
  | BodyReadError string
  | ResponseDecodingError string string int
  | ResponseErr ResponseError
  | RateLimitError ResponseError int
  | JsonDecodeError string
  | LibraryError string
  | InvalidMethodError string

section \<open>Library calls taken as parameters\<close>

text \<open>
  The results of the library calls that the core only passes data through:
  \<^item> \<open>json_Unmarshal b\<close>: \<^verbatim>\<open>json.Unmarshal(b, &woocommerceError)\<close>, either the text of
    the error or the \<^verbatim>\<open>message\<close> field of the decoded struct (the only field read);
  \<^item> \<open>ParseFloat s\<close>: \<^verbatim>\<open>strconv.ParseFloat(s, 64)\<close> on a string that is not empty: the
    float parsed, a syntax error, or a range error together with the infinity returned;
  \<^item> \<open>int_of_unrepresentable f\<close>: what the platform makes of the conversion \<^verbatim>\<open>int(f)\<close> for
    a float that is infinite, not a number, or outside the range of \<^verbatim>\<open>int\<close>, where Go
    leaves the result to the implementation (on amd64 it is the least \<^verbatim>\<open>int\<close>);
  \<^item> \<open>url_Parse s\<close>: \<^verbatim>\<open>url.Parse(s)\<close>;
  \<^item> \<open>Do client req n\<close>: the outcome of the \<open>n\<close>-th \<^verbatim>\<open>c.Client.Do(req)\<close> of a call,
    a client error or a response;
  \<^item> \<open>json_Decode b\<close>: \<^verbatim>\<open>json.NewDecoder(resp.Body).Decode(&v)\<close> on a body \<open>b\<close>,
    \<open>Some\<close> the text of the error if it fails.
\<close>

text \<open>
  A \<^verbatim>\<open>float64\<close>: a finite value, given as the rational number it stands for, an
  infinity, or not a number. The result of \<^verbatim>\<open>strconv.ParseFloat\<close>: a float with no error
  (\<^verbatim>\<open>inf\<close> and \<^verbatim>\<open>nan\<close> parse without error), \<^verbatim>\<open>ErrSyntax\<close>, with which the float
  returned is 0, or \<^verbatim>\<open>ErrRange\<close>, with which the float returned is an infinity.
\<close>

datatype float64 = Finite rat | PosInf | NegInf | NaN

datatype float_parse = Parsed float64 | ErrSyntax | ErrRange float64

record env =
  json_Unmarshal :: "string \<Rightarrow> string + string"
  ParseFloat :: "string \<Rightarrow> float_parse"
  int_of_unrepresentable :: "float64 \<Rightarrow> int"
  url_Parse :: "string \<Rightarrow> string + url"
  Do :: "http_client \<Rightarrow> http_request \<Rightarrow> int \<Rightarrow> string + http_response"
  json_Decode :: "string \<Rightarrow> string option"

section \<open>The response classifier\<close>

text \<open>Entries of the table of \<^verbatim>\<open>http.StatusText\<close>. The core calls it with 406 only; for a
  code that is not listed here the model gives the empty string.\<close>

definition StatusText :: "int \<Rightarrow> string" where
  "StatusText code =
     (if code = 400 then ''Bad Request''
      else if code = 401 then ''Unauthorized''
      else if code = 403 then ''Forbidden''
      else if code = 404 then ''Not Found''
      else if code = 406 then ''Not Acceptable''
      else if code = 429 then ''Too Many Requests''
      else if code = 500 then ''Internal Server Error''
      else if code = 503 then ''Service Unavailable''
      else [])"

text \<open>\<^verbatim>\<open>strconv.ParseFloat(s, 64)\<close>: the empty string is a syntax error.\<close>

definition strconv_ParseFloat :: "env \<Rightarrow> string \<Rightarrow> float_parse" where
  "strconv_ParseFloat env s = (if s = [] then ErrSyntax else ParseFloat env s)"

text \<open>The float that \<^verbatim>\<open>f, _ := strconv.ParseFloat(...)\<close> binds: the error is dropped.\<close>

fun parsed_float :: "float_parse \<Rightarrow> float64" where
  "parsed_float (Parsed f) = f"
| "parsed_float ErrSyntax = Finite 0"
| "parsed_float (ErrRange f) = f"

text \<open>A 64-bit integer, reduced to the signed 64-bit range.\<close>

definition wrap64 :: "int \<Rightarrow> int" where
  "wrap64 x = (x + 2 ^ 63) mod 2 ^ 64 - 2 ^ 63"

definition fits_int64 :: "int \<Rightarrow> bool" where
  "fits_int64 n = (- (2 ^ 63) \<le> n \<and> n < 2 ^ 63)"

text \<open>A rational without its fraction (truncation towards zero).\<close>

definition truncate_rat :: "rat \<Rightarrow> int" where
  "truncate_rat q = (if q < 0 then - \<lfloor>- q\<rfloor> else \<lfloor>q\<rfloor>)"

text \<open>
  The conversion \<^verbatim>\<open>int(f)\<close> of a \<^verbatim>\<open>float64\<close> to the 64-bit \<^verbatim>\<open>int\<close>: the fraction is
  dropped when the result fits; otherwise the result is some \<^verbatim>\<open>int\<close> that the
  platform chooses.
\<close>

definition float_to_int :: "env \<Rightarrow> float64 \<Rightarrow> int" where
  "float_to_int env f =
     (case f of
        Finite q \<Rightarrow>
          if fits_int64 (truncate_rat q) then truncate_rat q
          else wrap64 (int_of_unrepresentable env f)
      | _ \<Rightarrow> wrap64 (int_of_unrepresentable env f))"

definition wrapSpecificError :: "env \<Rightarrow> http_response \<Rightarrow> ResponseError \<Rightarrow> error" where
  "wrapSpecificError env r err =
     (if Status err = 429 then
        (let f = parsed_float (strconv_ParseFloat env (Header_Get (Header r) ''Retry-After''))
         in RateLimitError err (float_to_int env f))
      else if Status err = 406 then
        ResponseErr (err\<lparr>Message := StatusText (Status err)\<rparr>)
      else ResponseErr err)"

text \<open>
  \<^verbatim>\<open>CheckResponseError\<close>; \<open>None\<close> is the nil error. \<open>woocommerceError_Message\<close> is the
  \<^verbatim>\<open>Message\<close> field of the zero-valued struct, which is still empty where the body is
  empty. \<^verbatim>\<open>Data\<close> is never set and stays nil.
\<close>

definition CheckResponseError :: "env \<Rightarrow> http_response \<Rightarrow> error option" where
  "CheckResponseError env r =
     (if 200 \<le> StatusCode r \<and> StatusCode r < 300 then None
      else
        (let woocommerceError_Message = [] in
         case ReadAll (Body r) of
           (bodyBytes, Some err) \<Rightarrow> Some (BodyReadError err)
         | (bodyBytes, None) \<Rightarrow>
             if length bodyBytes > 0 then
               (case json_Unmarshal env bodyBytes of
                  Inl msg \<Rightarrow> Some (ResponseDecodingError bodyBytes msg (StatusCode r))
                | Inr message \<Rightarrow>
                    Some (ResponseErr \<lparr>Status = StatusCode r, Message = message, Data = []\<rparr>))
             else
               (let responseError =
                      \<lparr>Status = StatusCode r, Message = woocommerceError_Message, Data = []\<rparr>
                in if woocommerceError_Message = []
                   then Some (wrapSpecificError env r responseError)
                   else Some (wrapSpecificError env r responseError))))"

section \<open>Query strings\<close>

text \<open>
  \<^verbatim>\<open>url.Values\<close> is \<^verbatim>\<open>map[string][]string\<close>; it is kept as an association list with
  distinct keys, so that \<^verbatim>\<open>Encode\<close> can enumerate and sort the keys. \<^verbatim>\<open>Get\<close> returns
  the first value of a key or the empty string, \<^verbatim>\<open>Set\<close> replaces the values of a key
  by one value, \<^verbatim>\<open>Add\<close> appends a value.
\<close>

type_synonym Values = "(string \<times> string list) list"

definition Values_Get :: "Values \<Rightarrow> string \<Rightarrow> string" where
  "Values_Get v k = (case map_of v k of None \<Rightarrow> [] | Some [] \<Rightarrow> [] | Some (x # _) \<Rightarrow> x)"

fun Values_Set :: "string \<Rightarrow> string \<Rightarrow> Values \<Rightarrow> Values" where
  "Values_Set k x [] = [(k, [x])]"
| "Values_Set k x ((k', xs) # v) =
     (if k = k' then (k, [x]) # v else (k', xs) # Values_Set k x v)"

fun Values_Add :: "string \<Rightarrow> string \<Rightarrow> Values \<Rightarrow> Values" where
  "Values_Add k x [] = [(k, [x])]"
| "Values_Add k x ((k', xs) # v) =
     (if k = k' then (k, xs @ [x]) # v else (k', xs) # Values_Add k x v)"

text \<open>\<^verbatim>\<open>strings.Split(s, sep)\<close> for a separator of one byte: one more piece than separators.\<close>

fun strings_Split :: "string \<Rightarrow> char \<Rightarrow> string list" where
  "strings_Split [] sep = [[]]"
| "strings_Split (c # cs) sep =
     (case strings_Split cs sep of
        [] \<Rightarrow> [[c]]
      | piece # pieces \<Rightarrow> if c = sep then [] # piece # pieces else (c # piece) # pieces)"

text \<open>\<^verbatim>\<open>strings.Cut(s, sep)\<close> for a separator of one byte: the text before and after its
  first occurrence, or \<open>s\<close> and the empty string.\<close>

definition strings_Cut :: "string \<Rightarrow> char \<Rightarrow> string \<times> string" where
  "strings_Cut s sep = (takeWhile (\<lambda>c. c \<noteq> sep) s, drop 1 (dropWhile (\<lambda>c. c \<noteq> sep) s))"

definition hex_upper :: "nat \<Rightarrow> char" where
  "hex_upper n = ''0123456789ABCDEF'' ! (n mod 16)"

definition ishex :: "char \<Rightarrow> bool" where
  "ishex c = (c \<in> set ''0123456789abcdefABCDEF'')"

definition unhex :: "char \<Rightarrow> nat" where
  "unhex c =
     (let n = (of_char c :: nat) in
      if 48 \<le> n \<and> n \<le> 57 then n - 48
      else if 97 \<le> n \<and> n \<le> 102 then n - 97 + 10
      else if 65 \<le> n \<and> n \<le> 70 then n - 65 + 10
      else 0)"

text \<open>\<^verbatim>\<open>url.QueryEscape\<close>: letters, digits and \<^verbatim>\<open>-_.~\<close> stay, a space becomes \<^verbatim>\<open>+\<close>, every
  other byte becomes \<^verbatim>\<open>%XX\<close>.\<close>

definition unreserved :: "char \<Rightarrow> bool" where
  "unreserved c =
     (c \<in> set ''abcdefghijklmnopqrstuvwxyzABCDEFGHIJKLMNOPQRSTUVWXYZ0123456789-_.~'')"

fun QueryEscape :: "string \<Rightarrow> string" where
  "QueryEscape [] = []"
| "QueryEscape (c # cs) =
     (if unreserved c then c # QueryEscape cs
      else if c = CHR '' '' then CHR ''+'' # QueryEscape cs
      else CHR ''%'' # hex_upper (of_char c div 16) # hex_upper (of_char c mod 16)
             # QueryEscape cs)"

text \<open>\<^verbatim>\<open>url.QueryUnescape\<close>: \<open>None\<close> is the \<^verbatim>\<open>EscapeError\<close> of a \<^verbatim>\<open>%\<close> that is not
  followed by two hexadecimal digits.\<close>

fun QueryUnescape :: "string \<Rightarrow> string option" where
  "QueryUnescape [] = Some []"
| "QueryUnescape [c] = (if c = CHR ''%'' then None else Some [if c = CHR ''+'' then CHR '' '' else c])"
| "QueryUnescape [c, d] =
     (if c = CHR ''%'' then None
      else map_option ((#) (if c = CHR ''+'' then CHR '' '' else c)) (QueryUnescape [d]))"
| "QueryUnescape (c # h # l # rest) =
     (if c = CHR ''%'' then
        (if ishex h \<and> ishex l
         then map_option ((#) (char_of (unhex h * 16 + unhex l))) (QueryUnescape rest)
         else None)
      else map_option ((#) (if c = CHR ''+'' then CHR '' '' else c))
             (QueryUnescape (h # l # rest)))"

text \<open>
  \<^verbatim>\<open>url.ParseQuery\<close>: the pairs are cut at \<^verbatim>\<open>&\<close>; a pair with a semicolon, or with a
  bad escape in its key or value, is dropped and recorded as the error (the semicolon
  error replaces an earlier one, an escape error is kept only when it is the first);
  an empty pair is skipped. The values parsed are returned also when there is an error.
\<close>

definition parseQuery_pair :: "Values \<times> string option \<Rightarrow> string \<Rightarrow> Values \<times> string option" where
  "parseQuery_pair acc pair =
     (let (m, err) = acc in
      if CHR '';'' \<in> set pair then (m, Some ''invalid semicolon separator in query'')
      else if pair = [] then (m, err)
      else
        (let (key, val) = strings_Cut pair (CHR ''='') in
         case QueryUnescape key of
           None \<Rightarrow> (m, if err = None then Some ''invalid URL escape'' else err)
         | Some key' \<Rightarrow>
             (case QueryUnescape val of
                None \<Rightarrow> (m, if err = None then Some ''invalid URL escape'' else err)
              | Some val' \<Rightarrow> (Values_Add key' val' m, err))))"

definition url_ParseQuery :: "string \<Rightarrow> Values \<times> string option" where
  "url_ParseQuery query = foldl parseQuery_pair ([], None) (strings_Split query (CHR ''&''))"

text \<open>\<^verbatim>\<open>URL.Query()\<close>: \<^verbatim>\<open>ParseQuery(u.RawQuery)\<close> with the error dropped.\<close>

definition url_Query :: "url \<Rightarrow> Values" where
  "url_Query u = fst (url_ParseQuery (RawQuery u))"

fun join :: "string list \<Rightarrow> string \<Rightarrow> string" where
  "join [] sep = []"
| "join [x] sep = x"
| "join (x # y # xs) sep = x @ sep @ join (y # xs) sep"

text \<open>\<^verbatim>\<open>Values.Encode\<close>: the keys in sorted order, each value of a key as
  \<^verbatim>\<open>key=value\<close> with both escaped, joined by \<^verbatim>\<open>&\<close>.\<close>

definition Values_Encode :: "Values \<Rightarrow> string" where
  "Values_Encode v =
     join (concat (map (\<lambda>k. map (\<lambda>x. QueryEscape k @ ''='' @ QueryEscape x)
                                 (case map_of v k of None \<Rightarrow> [] | Some xs \<Rightarrow> xs))
                       (sort (remdups (map fst v)))))
          ''&''"

section \<open>The client\<close>

record App =
  CustomerKey :: string
  CustomerSecret :: string
  AppName :: string
  UserId :: string
  Scope :: string
  ReturnUrl :: string
  CallbackUrl :: string

text \<open>
  The fields of \<^verbatim>\<open>Client\<close> that the request core reads or writes. The logger, the
  rate-limit record and the per-resource services play no part in it.
\<close>

record client =
  Client :: http_client
  app :: App
  version :: string
  baseURL :: url
  pathPrefix :: string
  token :: string
  retries :: int
  attempts :: int

definition UserAgent :: string where
  "UserAgent = ''woocommerce/1.0.0''"

section \<open>Building a request\<close>

text \<open>\<^verbatim>\<open>base64.StdEncoding.EncodeToString\<close>: three bytes become four characters of the
  standard alphabet, the last group is padded with \<^verbatim>\<open>=\<close>.\<close>

definition base64_char :: "nat \<Rightarrow> char" where
  "base64_char n =
     ''ABCDEFGHIJKLMNOPQRSTUVWXYZabcdefghijklmnopqrstuvwxyz0123456789+/'' ! (n mod 64)"

fun base64_EncodeToString :: "string \<Rightarrow> string" where
  "base64_EncodeToString [] = []"
| "base64_EncodeToString [a] =
     [base64_char (of_char a div 4), base64_char (of_char a mod 4 * 16), CHR ''='', CHR ''='']"
| "base64_EncodeToString [a, b] =
     [base64_char (of_char a div 4),
      base64_char (of_char a mod 4 * 16 + of_char b div 16),
      base64_char (of_char b mod 16 * 4), CHR ''='']"
| "base64_EncodeToString (a # b # c # rest) =
     base64_char (of_char a div 4)
     # base64_char (of_char a mod 4 * 16 + of_char b div 16)
     # base64_char (of_char b mod 16 * 4 + of_char c div 64)
     # base64_char (of_char c mod 64)
     # base64_EncodeToString rest"

text \<open>\<^verbatim>\<open>Request.SetBasicAuth\<close>: sets the \<^verbatim>\<open>Authorization\<close> header to \<^verbatim>\<open>Basic\<close> and the
  base64 encoding of \<^verbatim>\<open>username:password\<close>.\<close>

definition SetBasicAuth :: "string \<Rightarrow> string \<Rightarrow> http_request \<Rightarrow> http_request" where
  "SetBasicAuth username password req =
     req\<lparr>reqHeader :=
           Header_Set ''Authorization''
             (''Basic '' @ base64_EncodeToString (username @ '':'' @ password))
             (reqHeader req)\<rparr>"

text \<open>The characters of an HTTP token: \<^verbatim>\<open>http.NewRequest\<close> refuses a method with any
  other byte. An empty method means \<^verbatim>\<open>GET\<close>.\<close>

definition isTokenChar :: "char \<Rightarrow> bool" where
  \<open>isTokenChar c =
     (c \<in> set (''abcdefghijklmnopqrstuvwxyzABCDEFGHIJKLMNOPQRSTUVWXYZ0123456789''
               @ ''!#$%&*+-.^_`|~'' @ [CHR 0x27]))\<close>

definition validMethod :: "string \<Rightarrow> bool" where
  "validMethod m = (length m > 0 \<and> list_all isTokenChar m)"

text \<open>
  \<^verbatim>\<open>http.NewRequest(method, u.String(), bytes.NewBuffer(js))\<close>. The URL is handed over
  as text and parsed again; the model takes that round trip to give \<open>u\<close> back.
\<close>

definition http_NewRequest :: "string \<Rightarrow> url \<Rightarrow> string \<Rightarrow> error + http_request" where
  "http_NewRequest method u js =
     (let m = (if method = [] then ''GET'' else method) in
      if \<not> validMethod m then Inl (InvalidMethodError m)
      else Inr \<lparr>Method = m, URL = u, reqHeader = Map.empty, reqBody = js\<rparr>)"

text \<open>
  \<^verbatim>\<open>Client.NewRequest\<close>. Its first half consists of library calls on the caller's data
  (\<^verbatim>\<open>url.Parse(relPath)\<close>, \<^verbatim>\<open>c.baseURL.ResolveReference\<close>, the merge of the options
  through \<^verbatim>\<open>query.Values\<close>, \<^verbatim>\<open>json.Marshal(body)\<close>); each returns early on an error.
  Their outcome is given: \<open>u\<close> is the resolved URL with the merged query, or the error
  returned, and \<open>js\<close> the marshalled body (empty for a nil body), or the error.
\<close>

definition NewRequest :: "client \<Rightarrow> string \<Rightarrow> error + url \<Rightarrow> error + string \<Rightarrow> error + http_request" where
  "NewRequest c method u js =
     (case u of
        Inl err \<Rightarrow> Inl err
      | Inr u' \<Rightarrow>
          (case js of
             Inl err \<Rightarrow> Inl err
           | Inr js' \<Rightarrow>
               (case http_NewRequest method u' js' of
                  Inl err \<Rightarrow> Inl err
                | Inr req \<Rightarrow>
                    (let req1 = req\<lparr>reqHeader := Header_Add ''Content-Type'' ''application/json'' (reqHeader req)\<rparr>;
                         req2 = req1\<lparr>reqHeader := Header_Add ''Accept'' ''application/json'' (reqHeader req1)\<rparr>;
                         req3 = req2\<lparr>reqHeader := Header_Add ''User-Agent'' UserAgent (reqHeader req2)\<rparr>
                     in Inr (SetBasicAuth (CustomerKey (app c)) (CustomerSecret (app c)) req3)))))"

section \<open>The transport\<close>

text \<open>
  What a call of \<^verbatim>\<open>doGetHeaders\<close> changes: the client behind the pointer \<^verbatim>\<open>c\<close>, the
  local variable \<^verbatim>\<open>retries\<close>, and, as a record of its effects, the calls of
  \<^verbatim>\<open>c.Client.Do\<close> made so far (the client used and the request passed) and the
  durations passed to \<^verbatim>\<open>time.Sleep\<close> in nanoseconds.
\<close>

record call_state =
  receiver :: client
  local_retries :: int
  sent :: "(http_client \<times> http_request) list"
  slept :: "int list"

text \<open>\<^verbatim>\<open>logResponse\<close> writes to the log and, through \<^verbatim>\<open>logBody\<close>, reads the body to its
  end (dropping a read error) and replaces it by a buffer of the bytes read.\<close>

definition logBody :: "reader \<Rightarrow> reader" where
  "logBody body = Reader (fst (ReadAll body)) None"

definition logResponse :: "http_response \<Rightarrow> http_response" where
  "logResponse res = res\<lparr>Body := logBody (Body res)\<rparr>"

text \<open>
  One round of the \<^verbatim>\<open>for\<close> loop of \<^verbatim>\<open>doGetHeaders\<close>: \<open>Return\<close> is a \<^verbatim>\<open>return\<close> of an
  error (\<open>Inl\<close>) or the \<^verbatim>\<open>break\<close> with the accepted response (\<open>Inr\<close>), \<open>Continue\<close> a
  \<^verbatim>\<open>continue\<close>.
\<close>

datatype step = Return "error + http_response" call_state | Continue call_state

definition attempt :: "env \<Rightarrow> http_request \<Rightarrow> call_state \<Rightarrow> step" where
  "attempt env req st =
     (let c1 = (receiver st)\<lparr>attempts := attempts (receiver st) + 1\<rparr>;
          st1 = st\<lparr>receiver := c1, sent := sent st @ [(Client c1, req)]\<rparr>
      in case Do env (Client c1) req (attempts c1) of
           Inl err \<Rightarrow> Return (Inl (HttpClientError err)) st1
         | Inr resp0 \<Rightarrow>
             (let resp = logResponse resp0 in
              case CheckResponseError env resp of
                None \<Rightarrow> Return (Inr resp) st1
              | Some respErr \<Rightarrow>
                  if local_retries st1 \<le> 1 then Return (Inl respErr) st1
                  else
                    (case respErr of
                       RateLimitError e retryAfter \<Rightarrow>
                         Continue (st1\<lparr>slept := slept st1 @ [wrap64 (retryAfter * 1000000000)],
                                        local_retries := local_retries st1 - 1\<rparr>)
                     | _ \<Rightarrow>
                         if StatusCode resp = 503
                         then Continue (st1\<lparr>local_retries := local_retries st1 - 1\<rparr>)
                         else Return (Inl respErr) st1)))"

lemma attempt_Continue:
  "attempt env req st = Continue st' \<Longrightarrow>
     1 < local_retries st \<and> local_retries st' = local_retries st - 1"
  by (auto simp: attempt_def Let_def split: sum.splits option.splits if_splits error.splits)

function attempt_loop :: "env \<Rightarrow> http_request \<Rightarrow> call_state \<Rightarrow> (error + http_response) \<times> call_state" where
  "attempt_loop env req st =
     (case attempt env req st of
        Return r st' \<Rightarrow> (r, st')
      | Continue st' \<Rightarrow> attempt_loop env req st')"
  by pat_completeness auto
termination
  by (relation "measure (\<lambda>(env, req, st). nat (local_retries st))")
     (auto dest: attempt_Continue)

declare attempt_loop.simps [simp del]

text \<open>
  The choice of lines 139 to 154: for the scheme \<^verbatim>\<open>https\<close> the key and the secret are
  set as query parameters of the request URL; for any other scheme \<^verbatim>\<open>c.Client\<close> is
  replaced by the OAuth1 client and the request is left as it is.
\<close>

definition authenticate :: "client \<Rightarrow> http_request \<Rightarrow> client \<times> http_request" where
  "authenticate c req =
     (if Scheme (URL req) = ''https'' then
        (let q = url_Query (URL req);
             q1 = Values_Set ''consumer_key'' (CustomerKey (app c)) q;
             q2 = Values_Set ''consumer_secret'' (CustomerSecret (app c)) q1
         in (c, req\<lparr>URL := (URL req)\<lparr>RawQuery := Values_Encode q2\<rparr>\<rparr>))
      else
        (c\<lparr>Client := OAuth1Client (CustomerKey (app c)) (CustomerSecret (app c))\<rparr>, req))"

text \<open>The query values after the two \<^verbatim>\<open>q.Set\<close> calls of the \<^verbatim>\<open>https\<close> branch.\<close>

definition with_credentials :: "client \<Rightarrow> Values \<Rightarrow> Values" where
  "with_credentials c q =
     Values_Set ''consumer_secret'' (CustomerSecret (app c))
       (Values_Set ''consumer_key'' (CustomerKey (app c)) q)"

text \<open>
  \<^verbatim>\<open>doGetHeaders\<close>. \<open>v_given\<close> says whether \<^verbatim>\<open>v\<close> is not nil; the decoded value itself
  is not modelled. The result is the error or the response headers, and the final
  state of the call.
\<close>

definition doGetHeaders :: "env \<Rightarrow> client \<Rightarrow> http_request \<Rightarrow> bool \<Rightarrow> (error + header) \<times> call_state" where
  "doGetHeaders env c req v_given =
     (let retries0 = retries c;
          c0 = c\<lparr>attempts := 0\<rparr>;
          (c1, req1) = authenticate c0 req;
          (res, st) = attempt_loop env req1
                        \<lparr>receiver = c1, local_retries = retries0, sent = [], slept = []\<rparr>
      in case res of
           Inl err \<Rightarrow> (Inl err, st)
         | Inr resp \<Rightarrow>
             (let resp' = logResponse resp in
              if v_given then
                (case json_Decode env (fst (ReadAll (Body resp'))) of
                   Some err \<Rightarrow> (Inl (JsonDecodeError err), st)
                 | None \<Rightarrow> (Inr (Header resp'), st))
              else (Inr (Header resp'), st)))"

text \<open>\<^verbatim>\<open>Client.Do\<close>: the error of \<^verbatim>\<open>doGetHeaders\<close>, if any.\<close>

definition Do_request :: "env \<Rightarrow> client \<Rightarrow> http_request \<Rightarrow> bool \<Rightarrow> error option \<times> call_state" where
  "Do_request env c req v_given =
     (case doGetHeaders env c req v_given of
        (Inl err, st) \<Rightarrow> (Some err, st)
      | (Inr _, st) \<Rightarrow> (None, st))"

section \<open>Pagination\<close>

record ListOptions =
  Context :: string
  Page :: int
  PerPage :: int
  Search :: string
  After :: string
  Before :: string
  Exclude :: "int list"
  Include :: "int list"
  Offset :: int
  Order :: string
  Orderby :: string

definition ListOptions_zero :: ListOptions where
  "ListOptions_zero =
     \<lparr>Context = [], Page = 0, PerPage = 0, Search = [], After = [], Before = [],
      Exclude = [], Include = [], Offset = 0, Order = [], Orderby = []\<rparr>"

record Pagination =
  NextPageOptions :: "ListOptions option"
  PreviousPageOptions :: "ListOptions option"
  FirstPageOptions :: "ListOptions option"
  LastPageOptions :: "ListOptions option"

definition Pagination_new :: Pagination where
  "Pagination_new =
     \<lparr>NextPageOptions = None, PreviousPageOptions = None,
      FirstPageOptions = None, LastPageOptions = None\<rparr>"

fun strip_prefix :: "string \<Rightarrow> string \<Rightarrow> string option" where
  "strip_prefix [] s = Some s"
| "strip_prefix (p # ps) [] = None"
| "strip_prefix (p # ps) (c # cs) = (if p = c then strip_prefix ps cs else None)"

text \<open>
  \<^verbatim>\<open>linkRegex.FindStringSubmatch\<close> for the expression
  \<^verbatim>\<open>^ *<([^>]+)>; rel="(prev|next|first|last)" *$\<close>. Every step of the expression is
  forced: the spaces up to \<^verbatim>\<open><\<close>, the longest run without \<^verbatim>\<open>>\<close> (not empty), the
  literal text, one of the four words (no two begin alike), the quote, and spaces to
  the end. A match is the list of the whole match and the two groups, no match is the
  nil slice.
\<close>

definition rel_words :: "string list" where
  "rel_words = [''prev'', ''next'', ''first'', ''last'']"

definition match_rel :: "string \<Rightarrow> string \<Rightarrow> bool" where
  "match_rel w s =
     (case strip_prefix (w @ [CHR 0x22]) s of
        None \<Rightarrow> False
      | Some rest \<Rightarrow> list_all (\<lambda>c. c = CHR '' '') rest)"

definition linkRegex_FindStringSubmatch :: "string \<Rightarrow> string list" where
  \<open>linkRegex_FindStringSubmatch link =
     (case dropWhile (\<lambda>c. c = CHR '' '') link of
        [] \<Rightarrow> []
      | c # rest \<Rightarrow>
          if c \<noteq> CHR ''<'' then []
          else
            (let u = takeWhile (\<lambda>c. c \<noteq> CHR ''>'') rest in
             if u = [] then []
             else
               (case strip_prefix ''>; rel="'' (dropWhile (\<lambda>c. c \<noteq> CHR ''>'') rest) of
                  None \<Rightarrow> []
                | Some s \<Rightarrow>
                    (case filter (\<lambda>w. match_rel w s) rel_words of
                       [] \<Rightarrow> []
                     | w # _ \<Rightarrow> [link, u, w]))))\<close>

text \<open>\<^verbatim>\<open>strconv.Atoi\<close>: an optional sign and decimal digits, within the range of
  \<^verbatim>\<open>int\<close>.\<close>

definition isdigit :: "char \<Rightarrow> bool" where
  "isdigit c = (48 \<le> (of_char c :: nat) \<and> (of_char c :: nat) \<le> 57)"

definition digits_value :: "string \<Rightarrow> int" where
  "digits_value ds = foldl (\<lambda>n ch. n * 10 + (of_char ch - 48)) 0 ds"

definition Atoi :: "string \<Rightarrow> string + int" where
  "Atoi s =
     (let neg = (case s of [] \<Rightarrow> False | c # _ \<Rightarrow> c = CHR ''-'');
          ds = (case s of [] \<Rightarrow> [] | c # cs \<Rightarrow> if c = CHR ''-'' \<or> c = CHR ''+'' then cs else s)
      in if ds = [] \<or> \<not> list_all isdigit ds then Inl ''strconv.Atoi: invalid syntax''
         else
           (let n = (if neg then - digits_value ds else digits_value ds) in
            if n < - (2 ^ 63) \<or> 2 ^ 63 - 1 < n then Inl ''strconv.Atoi: value out of range''
            else Inr n))"

text \<open>
  The body of the loop of \<^verbatim>\<open>extractPagination\<close> over the pieces of the header, and
  the function itself. The two \<^verbatim>\<open>ResponseDecodingError\<close> values carry only a message.
\<close>

fun extractPagination_links :: "env \<Rightarrow> string list \<Rightarrow> Pagination \<Rightarrow> error + Pagination" where
  "extractPagination_links env [] pagination = Inr pagination"
| "extractPagination_links env (link # links) pagination =
     (let match = linkRegex_FindStringSubmatch link in
      if length match \<noteq> 4 then
        Inl (ResponseDecodingError [] ''could not extract pagination link header'' 0)
      else
        (case url_Parse env (match ! 1) of
           Inl err \<Rightarrow> Inl (ResponseDecodingError [] ''pagination does not contain a valid URL'' 0)
         | Inr rel \<Rightarrow>
             (case url_ParseQuery (RawQuery rel) of
                (params, Some err) \<Rightarrow> Inl (LibraryError err)
              | (params, None) \<Rightarrow>
                  (let page = Values_Get params ''page'' in
                   case (if page \<noteq> [] then Atoi (Values_Get params ''page'') else Inr 0) of
                     Inl err \<Rightarrow> Inl (LibraryError err)
                   | Inr n \<Rightarrow>
                       (let paginationListOptions = ListOptions_zero\<lparr>Page := n\<rparr> in
                        extractPagination_links env links
                          (if match ! 2 = ''next''
                             then pagination\<lparr>NextPageOptions := Some paginationListOptions\<rparr>
                           else if match ! 2 = ''prev''
                             then pagination\<lparr>PreviousPageOptions := Some paginationListOptions\<rparr>
                           else if match ! 2 = ''first''
                             then pagination\<lparr>FirstPageOptions := Some paginationListOptions\<rparr>
                           else if match ! 2 = ''last''
                             then pagination\<lparr>LastPageOptions := Some paginationListOptions\<rparr>
                           else pagination))))))"

definition extractPagination :: "env \<Rightarrow> string \<Rightarrow> error + Pagination" where
  "extractPagination env linkHeader =
     (if linkHeader = [] then Inr Pagination_new
      else extractPagination_links env (strings_Split linkHeader (CHR '','')) Pagination_new)"

section \<open>States of a call\<close>

text \<open>The state after \<^verbatim>\<open>c.attempts++\<close> and one \<^verbatim>\<open>c.Client.Do(req)\<close>.\<close>

definition after_Do :: "http_request \<Rightarrow> call_state \<Rightarrow> call_state" where
  "after_Do req st =
     st\<lparr>receiver := (receiver st)\<lparr>attempts := attempts (receiver st) + 1\<rparr>,
        sent := sent st @ [(Client (receiver st), req)]\<rparr>"

text \<open>\<open>reaches env req st st'\<close>: the loop started in \<open>st\<close> is at the head of a round in
  \<open>st'\<close>, after any number of rounds that ended in \<^verbatim>\<open>continue\<close>.\<close>

inductive reaches :: "env \<Rightarrow> http_request \<Rightarrow> call_state \<Rightarrow> call_state \<Rightarrow> bool"
  for env req where
    reaches_start: "reaches env req st st"
  | reaches_round: "reaches env req st st' \<Longrightarrow> attempt env req st' = Continue st''
                    \<Longrightarrow> reaches env req st st''"

text \<open>The state in which \<^verbatim>\<open>doGetHeaders\<close> enters its loop, and the request it sends.\<close>

definition entry_state :: "client \<Rightarrow> http_request \<Rightarrow> call_state" where
  "entry_state c req =
     \<lparr>receiver = fst (authenticate (c\<lparr>attempts := 0\<rparr>) req), local_retries = retries c,
      sent = [], slept = []\<rparr>"

definition sent_request :: "client \<Rightarrow> http_request \<Rightarrow> http_request" where
  "sent_request c req = snd (authenticate (c\<lparr>attempts := 0\<rparr>) req)"

section \<open>Example data\<close>

text \<open>
  Concrete values for the examples below. \<open>example_Unmarshal\<close> and
  \<open>example_ParseFloat\<close> give the results of \<^verbatim>\<open>json.Unmarshal\<close> and
  \<^verbatim>\<open>strconv.ParseFloat\<close> on the inputs that the examples use: two JSON objects with a
  \<^verbatim>\<open>message\<close>, text that is not JSON, and the numbers \<^verbatim>\<open>2\<close>, \<^verbatim>\<open>2.5\<close>, \<^verbatim>\<open>1e30\<close> (the
  float nearest to it) and \<^verbatim>\<open>1e400\<close> (a range error). The conversion of a float that
  does not fit is the one of amd64.
  \<open>status_server\<close> answers every request with one status, header set and body.
\<close>

definition example_Unmarshal :: "string \<Rightarrow> string + string" where
  \<open>example_Unmarshal b =
     (if b = ''{"message":"slow down"}'' then Inr ''slow down''
      else if b = ''{"message":"nope"}'' then Inr ''nope''
      else Inl (''invalid character '' @ [CHR 0x27, CHR ''<'', CHR 0x27]
                @ '' looking for beginning of value''))\<close>

definition example_ParseFloat :: "string \<Rightarrow> float_parse" where
  "example_ParseFloat s =
     (if s = ''2'' then Parsed (Finite 2)
      else if s = ''2.5'' then Parsed (Finite (5 / 2))
      else if s = ''1e30'' then Parsed (Finite 1000000000000000019884624838656)
      else if s = ''1e400'' then ErrRange PosInf
      else ErrSyntax)"

definition status_server :: "int \<Rightarrow> header \<Rightarrow> string \<Rightarrow> http_client \<Rightarrow> http_request \<Rightarrow> int \<Rightarrow> string + http_response" where
  "status_server code h body cl rq n =
     Inr \<lparr>StatusCode = code, Header = h, Body = Reader body None\<rparr>"

text \<open>\<open>flaky_server k err\<close> answers 503 with an empty body, except that the \<open>k\<close>-th
  \<^verbatim>\<open>Do\<close> of a call fails with the client error \<open>err\<close>.\<close>

definition flaky_server :: "int \<Rightarrow> string \<Rightarrow> http_client \<Rightarrow> http_request \<Rightarrow> int \<Rightarrow> string + http_response" where
  "flaky_server k err cl rq n =
     (if n = k then Inl err else status_server 503 Map.empty [] cl rq n)"

definition example_env :: "(http_client \<Rightarrow> http_request \<Rightarrow> int \<Rightarrow> string + http_response) \<Rightarrow> env" where
  "example_env srv =
     \<lparr>json_Unmarshal = example_Unmarshal, ParseFloat = example_ParseFloat,
      int_of_unrepresentable = (\<lambda>f. - (2 ^ 63)),
      url_Parse = (\<lambda>s. Inl ''parse: not a URL of the examples''),
      Do = srv, json_Decode = (\<lambda>b. None)\<rparr>"

definition example_lib :: env where
  "example_lib = example_env (status_server 200 Map.empty [])"

definition example_client :: "int \<Rightarrow> client" where
  "example_client n =
     \<lparr>Client = DefaultHttpClient,
      app = \<lparr>CustomerKey = ''ck'', CustomerSecret = ''cs'', AppName = [], UserId = [],
             Scope = [], ReturnUrl = [], CallbackUrl = []\<rparr>,
      version = ''v3'',
      baseURL = \<lparr>Scheme = ''https'', Host = ''shop.example.com'', Path = [], RawQuery = []\<rparr>,
      pathPrefix = ''/wp-json/wc/v3'', token = [], retries = n, attempts = 0\<rparr>"

definition example_url :: "string \<Rightarrow> string \<Rightarrow> url" where
  "example_url scheme query =
     \<lparr>Scheme = scheme, Host = ''shop.example.com'', Path = ''/wp-json/wc/v3/products'',
      RawQuery = query\<rparr>"

text \<open>The request that \<^verbatim>\<open>NewRequest\<close> builds for \<open>example_client\<close>, the method
  \<^verbatim>\<open>GET\<close>, \<open>example_url\<close> and no body (lemma \<open>example_NewRequest\<close>).\<close>

definition example_request :: "string \<Rightarrow> string \<Rightarrow> http_request" where
  "example_request scheme query =
     \<lparr>Method = ''GET'', URL = example_url scheme query,
      reqHeader = [''Content-Type'' \<mapsto> [''application/json''],
                   ''Accept'' \<mapsto> [''application/json''],
                   ''User-Agent'' \<mapsto> [''woocommerce/1.0.0''],
                   ''Authorization'' \<mapsto> [''Basic Y2s6Y3M='']],
      reqBody = []\<rparr>"

definition example_response :: "int \<Rightarrow> header \<Rightarrow> string \<Rightarrow> http_response" where
  "example_response code h body = \<lparr>StatusCode = code, Header = h, Body = Reader body None\<rparr>"

section \<open>Properties of the classifier\<close>

lemma CheckResponseError_2xx:
  "200 \<le> StatusCode r \<Longrightarrow> StatusCode r < 300 \<Longrightarrow> CheckResponseError env r = None"
  by (simp add: CheckResponseError_def)

lemma CheckResponseError_malformed:
  assumes "\<not> (200 \<le> StatusCode r \<and> StatusCode r < 300)"
    and "ReadAll (Body r) = (b, None)" and "b \<noteq> []" and "json_Unmarshal env b = Inl msg"
  shows "CheckResponseError env r = Some (ResponseDecodingError b msg (StatusCode r))"
  using assms by (simp add: CheckResponseError_def)

lemma CheckResponseError_not_429:
  assumes "StatusCode r \<noteq> 429"
  shows "CheckResponseError env r \<noteq> Some (RateLimitError re ra)"
  using assms
  by (auto simp: CheckResponseError_def wrapSpecificError_def Let_def
           split: prod.splits option.splits sum.splits if_splits)

lemma CheckResponseError_503:
  assumes "StatusCode r = 503"
  shows "\<exists>e. CheckResponseError env r = Some e"
  using assms
  by (auto simp: CheckResponseError_def Let_def split: prod.splits option.splits sum.splits)

lemma StatusCode_logResponse [simp]: "StatusCode (logResponse r) = StatusCode r"
  by (simp add: logResponse_def)

lemma ReadAll_logResponse [simp]:
  "ReadAll (Body (logResponse r)) = (fst (ReadAll (Body r)), None)"
  by (simp add: logResponse_def logBody_def)

lemma CheckResponseError_parsed:
  assumes "\<not> (200 \<le> StatusCode r \<and> StatusCode r < 300)"
    and "ReadAll (Body r) = (b, None)" and "b \<noteq> []" and "json_Unmarshal env b = Inr m"
  shows "CheckResponseError env r
           = Some (ResponseErr \<lparr>Status = StatusCode r, Message = m, Data = []\<rparr>)"
  using assms by (simp add: CheckResponseError_def)

lemma CheckResponseError_406_empty:
  assumes "StatusCode r = 406" and "ReadAll (Body r) = ([], None)"
  shows "CheckResponseError env r
           = Some (ResponseErr \<lparr>Status = 406, Message = ''Not Acceptable'', Data = []\<rparr>)"
  using assms by (simp add: CheckResponseError_def wrapSpecificError_def StatusText_def)

lemma fits_int64_wrap64: "fits_int64 (wrap64 x)"
proof -
  have "0 \<le> (x + 2 ^ 63) mod (2 ^ 64 :: int)" and "(x + 2 ^ 63) mod (2 ^ 64 :: int) < 2 ^ 64"
    by simp_all
  moreover have "(2 :: int) ^ 64 = 2 ^ 63 + 2 ^ 63"
    by simp
  ultimately show ?thesis
    unfolding fits_int64_def wrap64_def by linarith
qed

lemma fits_int64_float_to_int: "fits_int64 (float_to_int env f)"
  by (cases f) (simp_all add: float_to_int_def fits_int64_wrap64)

lemma float_to_int_zero: "float_to_int env (Finite 0) = 0"
  by (simp add: float_to_int_def truncate_rat_def fits_int64_def)

text \<open>The conversion on the examples: a fraction is dropped, and a float that does not
  fit, or an infinity, gives the least 64-bit integer of the example platform.\<close>

lemma example_float_to_int:
  "float_to_int example_lib (parsed_float (strconv_ParseFloat example_lib ''2.5'')) = 2"
  "float_to_int example_lib (parsed_float (strconv_ParseFloat example_lib ''1e30''))
     = - 9223372036854775808"
  "float_to_int example_lib (parsed_float (strconv_ParseFloat example_lib ''1e400''))
     = - 9223372036854775808"
  "float_to_int example_lib (parsed_float (strconv_ParseFloat example_lib [])) = 0"
  by (simp_all add: float_to_int_def truncate_rat_def fits_int64_def wrap64_def
        strconv_ParseFloat_def example_lib_def example_env_def example_ParseFloat_def
        floor_eq_iff)

text \<open>
  Claim C2, as amended. A response with status 429 and an empty body is classified as a
  \<open>RateLimitError\<close> with status 429 and an empty message. Its \<open>RetryAfter\<close> is a 64-bit
  integer: 0 when the \<^verbatim>\<open>Retry-After\<close> header is absent or has a syntax error, and the
  float parsed from the header without its fraction (cut towards zero) when that fits
  the 64-bit range; for any other float the conversion is left to the platform. A
  response with status 429 whose body is not empty and fails to parse is classified as
  a \<open>ResponseDecodingError\<close> with the body, the parse message and the status.
\<close>

theorem CheckResponseError_429:
  assumes "StatusCode r = 429" and "ReadAll (Body r) = (b, None)"
  shows "(b = [] \<longrightarrow>
            (\<exists>ra. CheckResponseError env r
                    = Some (RateLimitError \<lparr>Status = 429, Message = [], Data = []\<rparr> ra)
                \<and> - (2 ^ 63) \<le> ra \<and> ra < 2 ^ 63
                \<and> (Header_Get (Header r) ''Retry-After'' = [] \<longrightarrow> ra = 0)
                \<and> (ParseFloat env (Header_Get (Header r) ''Retry-After'') = ErrSyntax
                     \<longrightarrow> ra = 0)
                \<and> (\<forall>q. Header_Get (Header r) ''Retry-After'' \<noteq> []
                        \<and> ParseFloat env (Header_Get (Header r) ''Retry-After'')
                            = Parsed (Finite q)
                        \<and> - (2 ^ 63) \<le> truncate_rat q \<and> truncate_rat q < 2 ^ 63
                        \<longrightarrow> ra = truncate_rat q)))
       \<and> (b \<noteq> [] \<longrightarrow> (\<forall>msg. json_Unmarshal env b = Inl msg \<longrightarrow>
            CheckResponseError env r = Some (ResponseDecodingError b msg 429)))"
proof -
  let ?h = "Header_Get (Header r) ''Retry-After''"
  let ?ra = "float_to_int env (parsed_float (strconv_ParseFloat env ?h))"
  have cls: "CheckResponseError env r
               = Some (RateLimitError \<lparr>Status = 429, Message = [], Data = []\<rparr> ?ra)"
    if "b = []"
    using assms that by (simp add: CheckResponseError_def wrapSpecificError_def)
  have bounds: "- (2 ^ 63) \<le> ?ra \<and> ?ra < 2 ^ 63"
    using fits_int64_float_to_int [of env] by (simp add: fits_int64_def)
  have absent: "?ra = 0" if "?h = []"
    using that by (simp add: strconv_ParseFloat_def float_to_int_zero)
  have malformed_header: "?ra = 0" if "ParseFloat env ?h = ErrSyntax"
    using that by (simp add: strconv_ParseFloat_def float_to_int_zero)
  have fits: "?ra = truncate_rat q"
    if "?h \<noteq> []" "ParseFloat env ?h = Parsed (Finite q)"
       "- (2 ^ 63) \<le> truncate_rat q" "truncate_rat q < 2 ^ 63" for q
    using that by (simp add: strconv_ParseFloat_def float_to_int_def fits_int64_def)
  have malformed: "CheckResponseError env r = Some (ResponseDecodingError b msg 429)"
    if "b \<noteq> []" "json_Unmarshal env b = Inl msg" for msg
    using assms that CheckResponseError_malformed [of r b env msg] by simp
  from cls bounds absent malformed_header fits malformed show ?thesis
    by blast
qed

theorem CheckResponseError_429_witness:
  "StatusCode (example_response 429 [''Retry-After'' \<mapsto> [''2.5'']] []) = 429
   \<and> ReadAll (Body (example_response 429 [''Retry-After'' \<mapsto> [''2.5'']] [])) = ([], None)
   \<and> CheckResponseError example_lib (example_response 429 [''Retry-After'' \<mapsto> [''2.5'']] [])
       = Some (RateLimitError \<lparr>Status = 429, Message = [], Data = []\<rparr> 2)"
proof -
  let ?r = "example_response 429 [''Retry-After'' \<mapsto> [''2.5'']] []"
  have r: "StatusCode ?r = 429" "ReadAll (Body ?r) = ([], None)"
    by (simp_all add: example_response_def)
  have h: "Header_Get (Header ?r) ''Retry-After'' = ''2.5''"
    by (simp add: example_response_def Header_Get_def)
  have p: "ParseFloat example_lib ''2.5'' = Parsed (Finite (5 / 2))"
    by (simp add: example_lib_def example_env_def example_ParseFloat_def)
  have t: "truncate_rat (5 / 2) = 2"
    by (simp add: truncate_rat_def floor_eq_iff)
  from CheckResponseError_429 [OF r, of example_lib] obtain ra where
    ra: "CheckResponseError example_lib ?r
       = Some (RateLimitError \<lparr>Status = 429, Message = [], Data = []\<rparr> ra)"
    and fits: "\<forall>q. Header_Get (Header ?r) ''Retry-After'' \<noteq> []
          \<and> ParseFloat example_lib (Header_Get (Header ?r) ''Retry-After'') = Parsed (Finite q)
          \<and> - (2 ^ 63) \<le> truncate_rat q \<and> truncate_rat q < 2 ^ 63
          \<longrightarrow> ra = truncate_rat q"
    by blast
  from fits [rule_format, of "5 / 2"] have "ra = 2"
    unfolding h p t by simp
  with ra r show ?thesis
    by simp
qed

theorem CheckResponseError_429_counterexample:
  \<open>CheckResponseError example_lib (example_response 429 [''Retry-After'' \<mapsto> [''2'']] ''<html>'')
     = Some (ResponseDecodingError ''<html>''
               (''invalid character '' @ [CHR 0x27, CHR ''<'', CHR 0x27]
                @ '' looking for beginning of value'') 429)
   \<and> CheckResponseError example_lib (example_response 429 [''Retry-After'' \<mapsto> [''2.5'']] [])
     = Some (RateLimitError \<lparr>Status = 429, Message = [], Data = []\<rparr> 2)
   \<and> example_ParseFloat ''2.5'' = Parsed (Finite (5 / 2))\<close>
  by (simp add: CheckResponseError_def wrapSpecificError_def float_to_int_def truncate_rat_def
        fits_int64_def strconv_ParseFloat_def
        example_response_def example_lib_def example_env_def example_ParseFloat_def
        example_Unmarshal_def Header_Get_def floor_eq_iff)

text \<open>
  Claim C3, on the code. A response with status 406 whose body is the object
  \<^verbatim>\<open>{"message":"nope"}\<close> is classified as a \<open>ResponseError\<close> with the message of the
  body, \<^verbatim>\<open>nope\<close>: \<^verbatim>\<open>CheckResponseError\<close> returns it at lines 255 to 260, before
  \<^verbatim>\<open>wrapSpecificError\<close> is called. \<^verbatim>\<open>wrapSpecificError\<close> gives that very error the
  message \<^verbatim>\<open>Not Acceptable\<close>, and a 406 with an empty body, which does reach it, is
  returned with that message.
\<close>

theorem CheckResponseError_406_body_message:
  \<open>CheckResponseError example_lib (example_response 406 Map.empty ''{"message":"nope"}'')
     = Some (ResponseErr \<lparr>Status = 406, Message = ''nope'', Data = []\<rparr>)
   \<and> wrapSpecificError example_lib (example_response 406 Map.empty ''{"message":"nope"}'')
        \<lparr>Status = 406, Message = ''nope'', Data = []\<rparr>
     = ResponseErr \<lparr>Status = 406, Message = ''Not Acceptable'', Data = []\<rparr>
   \<and> CheckResponseError example_lib (example_response 406 Map.empty [])
     = Some (ResponseErr \<lparr>Status = 406, Message = ''Not Acceptable'', Data = []\<rparr>)\<close>
proof -
  have \<open>CheckResponseError example_lib (example_response 406 Map.empty ''{"message":"nope"}'')
          = Some (ResponseErr \<lparr>Status = 406, Message = ''nope'', Data = []\<rparr>)\<close>
    using CheckResponseError_parsed
            [of \<open>example_response 406 Map.empty ''{"message":"nope"}''\<close>
                \<open>''{"message":"nope"}''\<close> example_lib "''nope''"]
    by (simp add: example_response_def example_lib_def example_env_def example_Unmarshal_def)
  moreover have "CheckResponseError example_lib (example_response 406 Map.empty [])
          = Some (ResponseErr \<lparr>Status = 406, Message = ''Not Acceptable'', Data = []\<rparr>)"
    by (rule CheckResponseError_406_empty) (simp_all add: example_response_def)
  ultimately show ?thesis
    by (simp add: wrapSpecificError_def StatusText_def)
qed

section \<open>Properties of the transport\<close>

lemma attempt_client_error:
  assumes "Do env (Client (receiver st)) req (attempts (receiver st) + 1) = Inl err"
  shows "attempt env req st = Return (Inl (HttpClientError err)) (after_Do req st)"
  using assms by (simp add: attempt_def after_Do_def Let_def)

lemma attempt_malformed:
  assumes "Do env (Client (receiver st)) req (attempts (receiver st) + 1) = Inr r"
    and "CheckResponseError env (logResponse r) = Some (ResponseDecodingError b msg code)"
    and "StatusCode r \<noteq> 503 \<or> local_retries st \<le> 1"
  shows "attempt env req st = Return (Inl (ResponseDecodingError b msg code)) (after_Do req st)"
  using assms by (auto simp: attempt_def after_Do_def Let_def)

lemma attempt_503:
  assumes "Do env (Client (receiver st)) req (attempts (receiver st) + 1) = Inr r"
    and "StatusCode r = 503"
    and "CheckResponseError env (logResponse r) = Some e"
  shows "attempt env req st =
           (if local_retries st \<le> 1 then Return (Inl e) (after_Do req st)
            else Continue ((after_Do req st)\<lparr>local_retries := local_retries st - 1\<rparr>))"
proof -
  have "\<And>re ra. e \<noteq> RateLimitError re ra"
    using CheckResponseError_not_429 [of "logResponse r" env] assms by auto
  then show ?thesis
    using assms by (cases e) (auto simp: attempt_def after_Do_def Let_def)
qed

lemma attempt_loop_503:
  assumes srv: "\<And>n. \<exists>r. Do env (Client (receiver st)) req n = Inr r \<and> StatusCode r = 503"
  shows "\<exists>r e st'. attempt_loop env req st = (Inl e, st')
           \<and> attempts (receiver st') = attempts (receiver st) + max (local_retries st) 1
           \<and> length (sent st') = length (sent st) + nat (max (local_retries st) 1)
           \<and> Do env (Client (receiver st)) req (attempts (receiver st')) = Inr r
           \<and> CheckResponseError env (logResponse r) = Some e"
  using srv
proof (induction env req st rule: attempt_loop.induct)
  case (1 env req st)
  obtain r where r: "Do env (Client (receiver st)) req (attempts (receiver st) + 1) = Inr r"
      "StatusCode r = 503"
    using "1.prems" by blast
  obtain e where e: "CheckResponseError env (logResponse r) = Some e"
    using CheckResponseError_503 [of "logResponse r" env] r by auto
  note round = attempt_503 [OF r e]
  show ?case
  proof (cases "local_retries st \<le> 1")
    case True
    then have "attempt_loop env req st = (Inl e, after_Do req st)"
      by (subst attempt_loop.simps) (simp add: round)
    then show ?thesis
      using True r e by (auto simp: after_Do_def max_def)
  next
    case False
    let ?st = "(after_Do req st)\<lparr>local_retries := local_retries st - 1\<rparr>"
    have cont: "attempt env req st = Continue ?st"
      using False by (simp add: round)
    have loop: "attempt_loop env req st = attempt_loop env req ?st"
      by (subst attempt_loop.simps) (simp add: cont)
    have same: "Client (receiver ?st) = Client (receiver st)"
      by (simp add: after_Do_def)
    have "\<And>n. \<exists>r. Do env (Client (receiver ?st)) req n = Inr r \<and> StatusCode r = 503"
      unfolding same using "1.prems" by blast
    from "1.IH" [OF cont this] obtain r' e' st' where
      IH: "attempt_loop env req ?st = (Inl e', st')"
        "attempts (receiver st') = attempts (receiver ?st) + max (local_retries ?st) 1"
        "length (sent st') = length (sent ?st) + nat (max (local_retries ?st) 1)"
        "Do env (Client (receiver ?st)) req (attempts (receiver st')) = Inr r'"
        "CheckResponseError env (logResponse r') = Some e'"
      by blast
    show ?thesis
      using False IH loop by (auto simp: after_Do_def max_def)
  qed
qed

lemma reaches_attempt_loop:
  "reaches env req st st' \<Longrightarrow> attempt_loop env req st = attempt_loop env req st'"
proof (induction rule: reaches.induct)
  case (reaches_start st)
  show ?case by simp
next
  case (reaches_round st st' st'')
  have "attempt_loop env req st' = attempt_loop env req st''"
    by (subst attempt_loop.simps) (simp add: reaches_round.hyps)
  with reaches_round.IH show ?case by simp
qed

lemma doGetHeaders_loop:
  "doGetHeaders env c req v_given =
     (case attempt_loop env (sent_request c req) (entry_state c req) of
        (Inl err, st) \<Rightarrow> (Inl err, st)
      | (Inr resp, st) \<Rightarrow>
          if v_given then
            (case json_Decode env (fst (ReadAll (Body resp))) of
               Some err \<Rightarrow> (Inl (JsonDecodeError err), st)
             | None \<Rightarrow> (Inr (Header resp), st))
          else (Inr (Header resp), st))"
  by (cases "authenticate (c\<lparr>attempts := 0\<rparr>) req")
     (auto simp: doGetHeaders_def sent_request_def entry_state_def Let_def logResponse_def
        logBody_def split: prod.splits sum.splits option.splits)

lemma doGetHeaders_returns_at:
  assumes "reaches env (sent_request c req) (entry_state c req) st"
    and "attempt env (sent_request c req) st = Return (Inl e) st'"
  shows "doGetHeaders env c req v_given = (Inl e, st')"
proof -
  have "attempt_loop env (sent_request c req) st = (Inl e, st')"
    by (subst attempt_loop.simps) (simp add: assms(2))
  with reaches_attempt_loop [OF assms(1)] show ?thesis
    by (simp add: doGetHeaders_loop)
qed

lemma attempt_trace:
  assumes "attempt env req st = Return res st' \<or> attempt env req st = Continue st'"
  shows "sent st' = sent st @ [(Client (receiver st), req)]
       \<and> receiver st' = (receiver st)\<lparr>attempts := attempts (receiver st) + 1\<rparr>"
  using assms
  by (auto simp: attempt_def Let_def split: sum.splits option.splits if_splits error.splits)

lemma attempt_loop_trace:
  "attempt_loop env req st = (res, st') \<Longrightarrow>
     \<exists>k. 0 < k \<and> sent st' = sent st @ replicate k (Client (receiver st), req)
        \<and> receiver st' = (receiver st)\<lparr>attempts := attempts (receiver st) + int k\<rparr>"
proof (induction env req st arbitrary: res st' rule: attempt_loop.induct)
  case (1 env req st)
  show ?case
  proof (cases "attempt env req st")
    case (Return r st1)
    then have "st' = st1"
      using "1.prems" by (subst (asm) attempt_loop.simps) simp
    with attempt_trace [of env req st r st1] Return
    have "sent st' = sent st @ replicate 1 (Client (receiver st), req)
        \<and> receiver st' = (receiver st)\<lparr>attempts := attempts (receiver st) + int 1\<rparr>"
      by simp
    then show ?thesis by (intro exI [of _ 1]) simp
  next
    case (Continue st1)
    then have "attempt_loop env req st1 = (res, st')"
      using "1.prems" by (subst (asm) attempt_loop.simps) simp
    from "1.IH" [OF Continue this] obtain k where
      k: "0 < k" "sent st' = sent st1 @ replicate k (Client (receiver st1), req)"
         "receiver st' = (receiver st1)\<lparr>attempts := attempts (receiver st1) + int k\<rparr>"
      by blast
    from attempt_trace [of env req st undefined st1] Continue
    have s1: "sent st1 = sent st @ [(Client (receiver st), req)]"
             "receiver st1 = (receiver st)\<lparr>attempts := attempts (receiver st) + 1\<rparr>"
      by simp_all
    have "sent st' = sent st @ replicate (Suc k) (Client (receiver st), req)"
      using k(2) s1 by (simp add: replicate_append_same)
    moreover have "receiver st' = (receiver st)\<lparr>attempts := attempts (receiver st) + int (Suc k)\<rparr>"
      using k(3) s1 by simp
    ultimately show ?thesis by (intro exI [of _ "Suc k"]) simp
  qed
qed

lemma doGetHeaders_state:
  "snd (doGetHeaders env c req v_given)
     = snd (attempt_loop env (sent_request c req) (entry_state c req))"
  by (simp add: doGetHeaders_loop split: prod.splits sum.splits option.splits)

lemma authenticate_attempts [simp]: "attempts (fst (authenticate c req)) = attempts c"
  by (simp add: authenticate_def Let_def)

lemma entry_state_simps [simp]:
  "attempts (receiver (entry_state c req)) = 0"
  "local_retries (entry_state c req) = retries c"
  "sent (entry_state c req) = []"
  "slept (entry_state c req) = []"
  by (simp_all add: entry_state_def)

text \<open>
  Claim C1. When every \<^verbatim>\<open>c.Client.Do\<close> of the call (the client and the request the
  call uses, whatever the attempt) returns a response with status 503, a call with
  retry setting \<open>retries c\<close> (any value, in particular any \<open>N \<ge> 0\<close>) increments
  \<^verbatim>\<open>c.attempts\<close> to \<open>max N 1\<close>, has called \<^verbatim>\<open>Do\<close> exactly that many times, and returns
  as its error the classification of the last response; it does not return headers.
\<close>

theorem doGetHeaders_503:
  assumes "\<And>n. \<exists>r. Do env (Client (receiver (entry_state c req))) (sent_request c req) n = Inr r
                    \<and> StatusCode r = 503"
  shows "\<exists>e st r. doGetHeaders env c req v_given = (Inl e, st)
           \<and> attempts (receiver st) = max (retries c) 1
           \<and> length (sent st) = nat (max (retries c) 1)
           \<and> Do env (Client (receiver (entry_state c req))) (sent_request c req)
                 (max (retries c) 1) = Inr r
           \<and> CheckResponseError env (logResponse r) = Some e"
proof -
  from attempt_loop_503 [OF assms]
  obtain r e st' where
    L: "attempt_loop env (sent_request c req) (entry_state c req) = (Inl e, st')"
       "attempts (receiver st') = max (retries c) 1"
       "length (sent st') = nat (max (retries c) 1)"
       "Do env (Client (receiver (entry_state c req))) (sent_request c req)
          (attempts (receiver st')) = Inr r"
       "CheckResponseError env (logResponse r) = Some e"
    by auto
  have "doGetHeaders env c req v_given = (Inl e, st')"
    by (simp add: doGetHeaders_loop L(1))
  then show ?thesis
    using L by auto
qed

theorem doGetHeaders_503_witness:
  "fst (doGetHeaders (example_env (status_server 503 Map.empty [])) (example_client 3)
          (example_request ''https'' []) False)
     = Inl (ResponseErr \<lparr>Status = 503, Message = [], Data = []\<rparr>)
   \<and> attempts (receiver (snd (doGetHeaders (example_env (status_server 503 Map.empty []))
                                  (example_client 3) (example_request ''https'' []) False))) = 3
   \<and> length (sent (snd (doGetHeaders (example_env (status_server 503 Map.empty []))
                           (example_client 3) (example_request ''https'' []) False))) = 3"
proof -
  let ?env = "example_env (status_server 503 Map.empty [])"
  have srv: "\<And>cl rq n. \<exists>r. Do ?env cl rq n = Inr r \<and> StatusCode r = 503"
    by (simp add: example_env_def status_server_def)
  have cls: "\<And>cl rq n r. Do ?env cl rq n = Inr r \<Longrightarrow>
               CheckResponseError ?env (logResponse r)
                 = Some (ResponseErr \<lparr>Status = 503, Message = [], Data = []\<rparr>)"
    by (auto simp: example_env_def status_server_def CheckResponseError_def logResponse_def
          logBody_def wrapSpecificError_def)
  from doGetHeaders_503 [of ?env "example_client 3" "example_request ''https'' []" False, OF srv]
  obtain e st r where
    "doGetHeaders ?env (example_client 3) (example_request ''https'' []) False = (Inl e, st)"
    "attempts (receiver st) = max (retries (example_client 3)) 1"
    "length (sent st) = nat (max (retries (example_client 3)) 1)"
    "Do ?env (Client (receiver (entry_state (example_client 3) (example_request ''https'' []))))
        (sent_request (example_client 3) (example_request ''https'' []))
        (max (retries (example_client 3)) 1) = Inr r"
    "CheckResponseError ?env (logResponse r) = Some e"
    by blast
  then show ?thesis
    using cls by (auto simp: example_client_def)
qed

text \<open>
  Claim C5. In whatever round of the loop \<^verbatim>\<open>c.Client.Do\<close> returns an error instead of
  a response, \<^verbatim>\<open>doGetHeaders\<close> returns that error as it is: the classifier is not
  applied, and the final state is the state of that round after the one \<^verbatim>\<open>Do\<close> (no
  further request, no sleep, the remaining retries untouched).
\<close>

theorem doGetHeaders_client_error:
  assumes "reaches env (sent_request c req) (entry_state c req) st"
    and "Do env (Client (receiver st)) (sent_request c req) (attempts (receiver st) + 1) = Inl err"
  shows "doGetHeaders env c req v_given
           = (Inl (HttpClientError err), after_Do (sent_request c req) st)"
  using doGetHeaders_returns_at [OF assms(1) attempt_client_error [OF assms(2)]] .


lemma example_entry_http:
  "entry_state (example_client n) (example_request ''http'' q) =
     \<lparr>receiver = (example_client n)\<lparr>Client := OAuth1Client ''ck'' ''cs''\<rparr>,
      local_retries = n, sent = [], slept = []\<rparr>"
  "sent_request (example_client n) (example_request ''http'' q) = example_request ''http'' q"
  by (simp_all add: entry_state_def sent_request_def authenticate_def example_client_def
        example_request_def example_url_def)

theorem doGetHeaders_client_error_witness:
  "fst (doGetHeaders (example_env (flaky_server 2 ''connection reset'')) (example_client 5)
          (example_request ''http'' []) False)
     = Inl (HttpClientError ''connection reset'')
   \<and> attempts (receiver (snd (doGetHeaders (example_env (flaky_server 2 ''connection reset''))
                                  (example_client 5) (example_request ''http'' []) False))) = 2
   \<and> local_retries (snd (doGetHeaders (example_env (flaky_server 2 ''connection reset''))
                            (example_client 5) (example_request ''http'' []) False)) = 4
   \<and> slept (snd (doGetHeaders (example_env (flaky_server 2 ''connection reset''))
                    (example_client 5) (example_request ''http'' []) False)) = []"
proof -
  let ?env = "example_env (flaky_server 2 ''connection reset'')"
  let ?c = "example_client 5"
  let ?req = "example_request ''http'' []"
  let ?st0 = "entry_state ?c ?req"
  let ?st1 = "(after_Do (sent_request ?c ?req) ?st0)\<lparr>local_retries := local_retries ?st0 - 1\<rparr>"
  have first: "attempt ?env (sent_request ?c ?req) ?st0 = Continue ?st1"
    by (subst attempt_503 [where r = "example_response 503 Map.empty []"
                             and e = "ResponseErr \<lparr>Status = 503, Message = [], Data = []\<rparr>"])
       (simp_all add: example_env_def flaky_server_def status_server_def example_response_def
          CheckResponseError_def wrapSpecificError_def logResponse_def logBody_def
          example_client_def)
  have reach: "reaches ?env (sent_request ?c ?req) ?st0 ?st1"
    by (rule reaches_round [OF reaches_start first])
  have fail: "Do ?env (Client (receiver ?st1)) (sent_request ?c ?req) (attempts (receiver ?st1) + 1)
                = Inl ''connection reset''"
    by (simp add: example_env_def flaky_server_def after_Do_def)
  show ?thesis
    using doGetHeaders_client_error [OF reach fail, of False]
    by (simp add: after_Do_def example_entry_http example_client_def)
qed

text \<open>
  Claim C4, as amended. A response whose status is outside 200 to 299 and whose body is
  not empty and fails to parse as the error object is classified as a
  \<open>ResponseDecodingError\<close> with the body, the parse message and the status. When the
  transport receives such a response in any round, it returns that error without a
  further request, unless the status is 503 and more than one retry is left: then the
  round ends in \<^verbatim>\<open>continue\<close> with one retry less, and the call makes at least one more
  request before it returns.
\<close>

theorem doGetHeaders_malformed_body:
  assumes "\<not> (200 \<le> StatusCode r \<and> StatusCode r < 300)"
    and "fst (ReadAll (Body r)) = b" and "b \<noteq> []" and "json_Unmarshal env b = Inl msg"
  shows "(snd (ReadAll (Body r)) = None \<longrightarrow>
            CheckResponseError env r = Some (ResponseDecodingError b msg (StatusCode r)))
       \<and> CheckResponseError env (logResponse r)
           = Some (ResponseDecodingError b msg (StatusCode r))
       \<and> (reaches env (sent_request c req) (entry_state c req) st
            \<and> Do env (Client (receiver st)) (sent_request c req) (attempts (receiver st) + 1)
                = Inr r
            \<and> (StatusCode r \<noteq> 503 \<or> local_retries st \<le> 1)
            \<longrightarrow> doGetHeaders env c req v_given
                  = (Inl (ResponseDecodingError b msg (StatusCode r)),
                     after_Do (sent_request c req) st))
       \<and> (reaches env (sent_request c req) (entry_state c req) st
            \<and> Do env (Client (receiver st)) (sent_request c req) (attempts (receiver st) + 1)
                = Inr r
            \<and> StatusCode r = 503 \<and> 1 < local_retries st
            \<longrightarrow> attempt env (sent_request c req) st
                  = Continue ((after_Do (sent_request c req) st)
                                \<lparr>local_retries := local_retries st - 1\<rparr>)
                \<and> reaches env (sent_request c req) (entry_state c req)
                     ((after_Do (sent_request c req) st)\<lparr>local_retries := local_retries st - 1\<rparr>)
                \<and> attempts (receiver st) + 2
                     \<le> attempts (receiver (snd (doGetHeaders env c req v_given)))
                \<and> length (sent st) + 2
                     \<le> length (sent (snd (doGetHeaders env c req v_given))))"
proof -
  let ?req = "sent_request c req"
  let ?st1 = "(after_Do ?req st)\<lparr>local_retries := local_retries st - 1\<rparr>"
  have raw: "snd (ReadAll (Body r)) = None \<Longrightarrow>
               CheckResponseError env r = Some (ResponseDecodingError b msg (StatusCode r))"
    using assms CheckResponseError_malformed [of r b env msg]
    by (cases "ReadAll (Body r)") simp
  have cls: "CheckResponseError env (logResponse r)
               = Some (ResponseDecodingError b msg (StatusCode r))"
    using assms CheckResponseError_malformed [of "logResponse r" b env msg] by simp
  have stop: "doGetHeaders env c req v_given
          = (Inl (ResponseDecodingError b msg (StatusCode r)), after_Do ?req st)"
    if "reaches env ?req (entry_state c req) st"
      and "Do env (Client (receiver st)) ?req (attempts (receiver st) + 1) = Inr r"
      and "StatusCode r \<noteq> 503 \<or> local_retries st \<le> 1"
    using doGetHeaders_returns_at [OF that(1) attempt_malformed [OF that(2) cls that(3)]] .
  have retry: "attempt env ?req st = Continue ?st1
        \<and> reaches env ?req (entry_state c req) ?st1
        \<and> attempts (receiver st) + 2 \<le> attempts (receiver (snd (doGetHeaders env c req v_given)))
        \<and> length (sent st) + 2 \<le> length (sent (snd (doGetHeaders env c req v_given)))"
    if reach: "reaches env ?req (entry_state c req) st"
      and resp: "Do env (Client (receiver st)) ?req (attempts (receiver st) + 1) = Inr r"
      and again: "StatusCode r = 503" "1 < local_retries st"
  proof -
    have cont: "attempt env ?req st = Continue ?st1"
      using attempt_503 [OF resp again(1) cls] again(2) by simp
    have reach1: "reaches env ?req (entry_state c req) ?st1"
      by (rule reaches_round [OF reach cont])
    obtain res st' where L: "attempt_loop env ?req ?st1 = (res, st')"
      by (cases "attempt_loop env ?req ?st1")
    from attempt_loop_trace [OF L] obtain k where
      k: "0 < k" "sent st' = sent ?st1 @ replicate k (Client (receiver ?st1), ?req)"
         "receiver st' = (receiver ?st1)\<lparr>attempts := attempts (receiver ?st1) + int k\<rparr>"
      by blast
    have "snd (doGetHeaders env c req v_given) = st'"
      using reaches_attempt_loop [OF reach1] L by (simp add: doGetHeaders_state)
    then show ?thesis
      using cont reach1 k by (simp add: after_Do_def)
  qed
  from raw cls stop retry show ?thesis
    by blast
qed

theorem doGetHeaders_malformed_body_witness:
  \<open>fst (doGetHeaders (example_env (status_server 429 [''Retry-After'' \<mapsto> [''2'']] ''<html>''))
          (example_client 5) (example_request ''http'' []) False)
     = Inl (ResponseDecodingError ''<html>''
              (''invalid character '' @ [CHR 0x27, CHR ''<'', CHR 0x27]
               @ '' looking for beginning of value'') 429)
   \<and> attempts (receiver (snd (doGetHeaders
         (example_env (status_server 429 [''Retry-After'' \<mapsto> [''2'']] ''<html>''))
         (example_client 5) (example_request ''http'' []) False))) = 1
   \<and> 2 \<le> attempts (receiver (snd (doGetHeaders
         (example_env (status_server 503 Map.empty ''<html>''))
         (example_client 2) (example_request ''http'' []) False)))\<close>
proof -
  let ?env = "example_env (status_server 429 [''Retry-After'' \<mapsto> [''2'']] ''<html>'')"
  let ?env' = "example_env (status_server 503 Map.empty ''<html>'')"
  let ?c = "example_client 5"
  let ?c' = "example_client 2"
  let ?req = "example_request ''http'' []"
  let ?r = "example_response 429 [''Retry-After'' \<mapsto> [''2'']] ''<html>''"
  let ?r' = "example_response 503 Map.empty ''<html>''"
  have reach: "reaches ?env (sent_request ?c ?req) (entry_state ?c ?req) (entry_state ?c ?req)"
    and reach': "reaches ?env' (sent_request ?c' ?req) (entry_state ?c' ?req) (entry_state ?c' ?req)"
    by (rule reaches_start)+
  have r: "\<not> (200 \<le> StatusCode ?r \<and> StatusCode ?r < 300)" "fst (ReadAll (Body ?r)) = ''<html>''"
    "''<html>'' \<noteq> []"
    "json_Unmarshal ?env ''<html>''
       = Inl (''invalid character '' @ [CHR 0x27, CHR ''<'', CHR 0x27]
              @ '' looking for beginning of value'')"
    by (simp_all add: example_response_def example_env_def example_Unmarshal_def)
  have r': "\<not> (200 \<le> StatusCode ?r' \<and> StatusCode ?r' < 300)" "fst (ReadAll (Body ?r')) = ''<html>''"
    "''<html>'' \<noteq> []"
    "json_Unmarshal ?env' ''<html>''
       = Inl (''invalid character '' @ [CHR 0x27, CHR ''<'', CHR 0x27]
              @ '' looking for beginning of value'')"
    by (simp_all add: example_response_def example_env_def example_Unmarshal_def)
  have first: "fst (doGetHeaders ?env ?c ?req False)
                 = Inl (ResponseDecodingError ''<html>''
                          (''invalid character '' @ [CHR 0x27, CHR ''<'', CHR 0x27]
                           @ '' looking for beginning of value'') 429)
               \<and> attempts (receiver (snd (doGetHeaders ?env ?c ?req False))) = 1"
    using doGetHeaders_malformed_body [OF r, of ?c ?req "entry_state ?c ?req" False] reach
    by (simp add: example_env_def status_server_def example_response_def after_Do_def)
  have second: "2 \<le> attempts (receiver (snd (doGetHeaders ?env' ?c' ?req False)))"
    using doGetHeaders_malformed_body [OF r', of ?c' ?req "entry_state ?c' ?req" False] reach'
    by (simp add: example_env_def status_server_def example_response_def example_client_def)
  from first second show ?thesis
    by simp
qed

theorem doGetHeaders_malformed_body_counterexample:
  \<open>fst (doGetHeaders (example_env (status_server 503 Map.empty ''<html>''))
          (example_client 2) (example_request ''http'' []) False)
     = Inl (ResponseDecodingError ''<html>''
              (''invalid character '' @ [CHR 0x27, CHR ''<'', CHR 0x27]
               @ '' looking for beginning of value'') 503)
   \<and> attempts (receiver (snd (doGetHeaders (example_env (status_server 503 Map.empty ''<html>''))
                                  (example_client 2) (example_request ''http'' []) False))) = 2
   \<and> length (sent (snd (doGetHeaders (example_env (status_server 503 Map.empty ''<html>''))
                           (example_client 2) (example_request ''http'' []) False))) = 2\<close>
proof -
  let ?env = "example_env (status_server 503 Map.empty ''<html>'')"
  have srv: "\<And>cl rq n. \<exists>r. Do ?env cl rq n = Inr r \<and> StatusCode r = 503"
    by (simp add: example_env_def status_server_def)
  have cls: "\<And>cl rq n r. Do ?env cl rq n = Inr r \<Longrightarrow>
               CheckResponseError ?env (logResponse r)
                 = Some (ResponseDecodingError ''<html>''
                           (''invalid character '' @ [CHR 0x27, CHR ''<'', CHR 0x27]
                            @ '' looking for beginning of value'') 503)"
    by (auto simp: example_env_def status_server_def CheckResponseError_def logResponse_def
          logBody_def example_Unmarshal_def)
  from attempt_loop_503 [of ?env "entry_state (example_client 2) (example_request ''http'' [])"
      "sent_request (example_client 2) (example_request ''http'' [])", OF srv]
  obtain r e st' where
    "attempt_loop ?env (sent_request (example_client 2) (example_request ''http'' []))
        (entry_state (example_client 2) (example_request ''http'' [])) = (Inl e, st')"
    "attempts (receiver st') = max (retries (example_client 2)) 1"
    "length (sent st') = nat (max (retries (example_client 2)) 1)"
    "Do ?env (Client (receiver (entry_state (example_client 2) (example_request ''http'' []))))
        (sent_request (example_client 2) (example_request ''http'' []))
        (attempts (receiver st')) = Inr r"
    "CheckResponseError ?env (logResponse r) = Some e"
    by auto
  then show ?thesis
    using cls by (auto simp: doGetHeaders_loop example_client_def)
qed

section \<open>Encoding and parsing a query\<close>

lemma strings_Split_not_Nil: "strings_Split s sep \<noteq> []"
  by (induction s) (auto split: list.splits)

lemma hex_upper_table:
  "list_all (\<lambda>n. ishex (hex_upper n) \<and> unhex (hex_upper n) = n
                   \<and> hex_upper n \<notin> set ''&=;'') [0..<16]"
  by (simp add: upt_rec hex_upper_def ishex_def unhex_def)

lemma hex_upper_props:
  assumes "n < 16"
  shows "ishex (hex_upper n)" and "unhex (hex_upper n) = n"
    and "hex_upper n \<noteq> CHR ''&''" and "hex_upper n \<noteq> CHR ''=''" and "hex_upper n \<noteq> CHR '';''"
proof -
  have "n \<in> set [0..<16]"
    using assms by simp
  with hex_upper_table
  have "ishex (hex_upper n) \<and> unhex (hex_upper n) = n \<and> hex_upper n \<notin> set ''&=;''"
    unfolding list_all_iff by blast
  then show "ishex (hex_upper n)" and "unhex (hex_upper n) = n"
    and "hex_upper n \<noteq> CHR ''&''" and "hex_upper n \<noteq> CHR ''=''" and "hex_upper n \<noteq> CHR '';''"
    by auto
qed

lemma unreserved_props:
  assumes "unreserved c"
  shows "c \<noteq> CHR ''%''" and "c \<noteq> CHR ''+''" and "c \<noteq> CHR ''&''" and "c \<noteq> CHR ''=''"
    and "c \<noteq> CHR '';''"
  using assms by (auto simp: unreserved_def)

lemma QueryUnescape_plain:
  assumes "c \<noteq> CHR ''%''"
  shows "QueryUnescape (c # cs)
           = map_option ((#) (if c = CHR ''+'' then CHR '' '' else c)) (QueryUnescape cs)"
proof (cases cs)
  case Nil
  then show ?thesis using assms by simp
next
  case (Cons d ds)
  then show ?thesis using assms by (cases ds) simp_all
qed

lemma char_of_nibbles: "char_of (of_char c div 16 * 16 + of_char c mod 16 :: nat) = c"
  by simp

lemma QueryUnescape_QueryEscape: "QueryUnescape (QueryEscape s) = Some s"
proof (induction s)
  case Nil
  show ?case by simp
next
  case (Cons c s)
  have "(of_char c :: nat) < 256"
    by (rule nat_of_char_less_256)
  then have hi: "(of_char c :: nat) div 16 < 16"
    by arith
  have lo: "(of_char c :: nat) mod 16 < 16"
    by simp
  show ?case
  proof (cases "unreserved c")
    case True
    then show ?thesis
      using Cons unreserved_props [OF True] by (simp add: QueryUnescape_plain)
  next
    case False
    show ?thesis
    proof (cases "c = CHR '' ''")
      case True
      then show ?thesis using False Cons by (simp add: QueryUnescape_plain)
    next
      case sp: False
      have "char_of (unhex (hex_upper (of_char c div 16)) * 16
                      + unhex (hex_upper (of_char c mod 16))) = c"
        using hex_upper_props(2) [OF hi] hex_upper_props(2) [OF lo] by simp
      then show ?thesis
        using False sp Cons hex_upper_props(1) [OF hi] hex_upper_props(1) [OF lo] by simp
    qed
  qed
qed

lemma QueryEscape_chars:
  "x \<in> set (QueryEscape s) \<Longrightarrow> x \<noteq> CHR ''&'' \<and> x \<noteq> CHR ''='' \<and> x \<noteq> CHR '';''"
proof (induction s)
  case Nil
  then show ?case by simp
next
  case (Cons c s)
  have "(of_char c :: nat) < 256"
    by (rule nat_of_char_less_256)
  then have hi: "(of_char c :: nat) div 16 < 16"
    by arith
  have lo: "(of_char c :: nat) mod 16 < 16"
    by simp
  from Cons show ?case
    using unreserved_props [of c] hex_upper_props(3-5) [OF hi] hex_upper_props(3-5) [OF lo]
    by (auto split: if_splits)
qed

lemma strings_Split_no_sep: "sep \<notin> set p \<Longrightarrow> strings_Split p sep = [p]"
  by (induction p) auto

lemma strings_Split_append:
  "sep \<notin> set p \<Longrightarrow> strings_Split (p @ sep # s) sep = p # strings_Split s sep"
proof (induction p)
  case Nil
  show ?case by (cases "strings_Split s sep") (simp_all add: strings_Split_not_Nil)
next
  case (Cons c p)
  then show ?case by auto
qed

lemma strings_Split_join:
  assumes "ps \<noteq> []" and "\<And>p. p \<in> set ps \<Longrightarrow> sep \<notin> set p"
  shows "strings_Split (join ps [sep]) sep = ps"
  using assms
proof (induction ps "[sep]" rule: join.induct)
  case 1
  then show ?case by simp
next
  case (2 x)
  then show ?case by (simp add: strings_Split_no_sep)
next
  case (3 x y xs)
  then show ?case by (simp add: strings_Split_append)
qed

lemma strings_Cut_append: "sep \<notin> set a \<Longrightarrow> strings_Cut (a @ sep # b) sep = (a, b)"
  by (induction a) (auto simp: strings_Cut_def)

definition pair_text :: "string \<times> string \<Rightarrow> string" where
  "pair_text kx = QueryEscape (fst kx) @ ''='' @ QueryEscape (snd kx)"

lemma parseQuery_pair_text:
  "parseQuery_pair (m, None) (pair_text (k, x)) = (Values_Add k x m, None)"
proof -
  have "CHR '';'' \<notin> set (pair_text (k, x))" "CHR ''='' \<notin> set (QueryEscape k)"
    using QueryEscape_chars [of _ k] QueryEscape_chars [of _ x]
    by (auto simp: pair_text_def)
  moreover have "pair_text (k, x) \<noteq> []"
    by (simp add: pair_text_def)
  moreover have "strings_Cut (pair_text (k, x)) (CHR ''='') = (QueryEscape k, QueryEscape x)"
    using calculation(2) strings_Cut_append [of "CHR ''=''" "QueryEscape k" "QueryEscape x"]
    by (simp add: pair_text_def)
  ultimately show ?thesis
    by (simp add: parseQuery_pair_def QueryUnescape_QueryEscape)
qed

lemma foldl_parseQuery_pair:
  "foldl parseQuery_pair (m, None) (map pair_text kxs)
     = (foldl (\<lambda>m kx. Values_Add (fst kx) (snd kx) m) m kxs, None)"
  by (induction kxs arbitrary: m) (auto simp: parseQuery_pair_text)

lemma url_ParseQuery_join:
  "url_ParseQuery (join (map pair_text kxs) ''&'')
     = (foldl (\<lambda>m kx. Values_Add (fst kx) (snd kx) m) [] kxs, None)"
proof (cases kxs)
  case Nil
  then show ?thesis
    by (simp add: url_ParseQuery_def parseQuery_pair_def)
next
  case (Cons kx rest)
  have "\<And>p. p \<in> set (map pair_text kxs) \<Longrightarrow> CHR ''&'' \<notin> set p"
    using QueryEscape_chars by (fastforce simp: pair_text_def)
  with Cons have "strings_Split (join (map pair_text kxs) [CHR ''&'']) (CHR ''&'') = map pair_text kxs"
    by (intro strings_Split_join) simp_all
  then show ?thesis
    by (simp add: url_ParseQuery_def foldl_parseQuery_pair)
qed


lemma map_of_Values_Add:
  "map_of (Values_Add k x m)
     = (map_of m)(k \<mapsto> (case map_of m k of None \<Rightarrow> [x] | Some xs \<Rightarrow> xs @ [x]))"
  by (induction m) (auto simp: fun_eq_iff)

lemma map_of_foldl_Values_Add:
  "map_of (foldl (\<lambda>m kx. Values_Add (fst kx) (snd kx) m) m kxs) k
     = (let new = map snd (filter (\<lambda>kx. fst kx = k) kxs) in
        if new = [] then map_of m k
        else Some ((case map_of m k of None \<Rightarrow> [] | Some xs \<Rightarrow> xs) @ new))"
proof (induction kxs arbitrary: m)
  case Nil
  show ?case by simp
next
  case (Cons kx kxs)
  show ?case
    unfolding foldl_Cons Cons.IH
    by (auto simp: map_of_Values_Add Let_def split: option.splits)
qed

definition query_pairs :: "Values \<Rightarrow> (string \<times> string) list" where
  "query_pairs v =
     concat (map (\<lambda>k. map (Pair k) (case map_of v k of None \<Rightarrow> [] | Some xs \<Rightarrow> xs))
                 (sort (remdups (map fst v))))"

lemma Values_Encode_pairs: "Values_Encode v = join (map pair_text (query_pairs v)) ''&''"
  by (simp add: Values_Encode_def query_pairs_def pair_text_def map_concat comp_def)

lemma filter_concat_distinct:
  assumes "distinct ks"
  shows "map snd (filter (\<lambda>kx. fst kx = k) (concat (map (\<lambda>k'. map (Pair k') (f k')) ks)))
           = (if k \<in> set ks then f k else [])"
  using assms
proof (induction ks)
  case Nil
  show ?case by simp
next
  case (Cons a ks)
  have "filter (\<lambda>kx. fst kx = k) (map (Pair a) (f a)) = (if a = k then map (Pair a) (f a) else [])"
    by (induction "f a") (auto simp: filter_empty_conv)
  with Cons show ?case by (auto simp: comp_def)
qed

lemma map_of_ParseQuery_Encode:
  "map_of (fst (url_ParseQuery (Values_Encode v))) k
     = (case map_of v k of None \<Rightarrow> None | Some [] \<Rightarrow> None | Some (x # xs) \<Rightarrow> Some (x # xs))"
proof -
  have keys: "k \<in> set (sort (remdups (map fst v))) \<longleftrightarrow> map_of v k \<noteq> None"
    by (simp add: map_of_eq_None_iff)
  have "map snd (filter (\<lambda>kx. fst kx = k) (query_pairs v))
          = (case map_of v k of None \<Rightarrow> [] | Some xs \<Rightarrow> xs)"
    unfolding query_pairs_def
    using filter_concat_distinct [of "sort (remdups (map fst v))" k
            "\<lambda>k. case map_of v k of None \<Rightarrow> [] | Some xs \<Rightarrow> xs"] keys
    by (auto split: option.splits)
  then show ?thesis
    by (simp add: Values_Encode_pairs url_ParseQuery_join map_of_foldl_Values_Add Let_def
          split: option.splits list.splits)
qed

lemma ParseQuery_Encode_no_error: "snd (url_ParseQuery (Values_Encode v)) = None"
  by (simp add: Values_Encode_pairs url_ParseQuery_join)

lemma Values_Add_values:
  "(k', xs) \<in> set (Values_Add k x m) \<Longrightarrow> xs \<noteq> [] \<or> (k', xs) \<in> set m"
  by (induction m) (auto split: if_splits)

lemma parseQuery_pair_cases:
  "fst (parseQuery_pair (m, err) pair) = m
     \<or> (\<exists>k x. fst (parseQuery_pair (m, err) pair) = Values_Add k x m)"
  by (simp add: parseQuery_pair_def Let_def split: prod.splits option.splits) blast

lemma parseQuery_pair_values:
  assumes "\<And>k xs. (k, xs) \<in> set (fst acc) \<Longrightarrow> xs \<noteq> []"
    and "(k, xs) \<in> set (fst (parseQuery_pair acc pair))"
  shows "xs \<noteq> []"
proof (cases acc)
  case (Pair m err)
  from parseQuery_pair_cases [of m err pair] show ?thesis
  proof
    assume "fst (parseQuery_pair (m, err) pair) = m"
    then show ?thesis using assms Pair by simp
  next
    assume "\<exists>k x. fst (parseQuery_pair (m, err) pair) = Values_Add k x m"
    then obtain k' x where "fst (parseQuery_pair (m, err) pair) = Values_Add k' x m"
      by blast
    then have "(k, xs) \<in> set (Values_Add k' x m)"
      using assms(2) Pair by simp
    from Values_Add_values [OF this] show ?thesis
      using assms(1) Pair by auto
  qed
qed

lemma foldl_parseQuery_pair_values:
  assumes "\<And>k xs. (k, xs) \<in> set (fst acc) \<Longrightarrow> xs \<noteq> []"
    and "(k, xs) \<in> set (fst (foldl parseQuery_pair acc pairs))"
  shows "xs \<noteq> []"
  using assms
proof (induction pairs arbitrary: acc)
  case Nil
  then show ?case by simp
next
  case (Cons pair pairs)
  show ?case
  proof (rule Cons.IH [of "parseQuery_pair acc pair"])
    show "\<And>k xs. (k, xs) \<in> set (fst (parseQuery_pair acc pair)) \<Longrightarrow> xs \<noteq> []"
      using parseQuery_pair_values [of acc] Cons.prems(1) by blast
    show "(k, xs) \<in> set (fst (foldl parseQuery_pair (parseQuery_pair acc pair) pairs))"
      using Cons.prems(2) by simp
  qed
qed

lemma url_Query_values: "map_of (url_Query u) k \<noteq> Some []"
proof
  assume "map_of (url_Query u) k = Some []"
  then have "(k, []) \<in> set (fst (foldl parseQuery_pair ([], None)
                                     (strings_Split (RawQuery u) (CHR ''&''))))"
    by (auto simp: url_Query_def url_ParseQuery_def dest: map_of_SomeD)
  from foldl_parseQuery_pair_values [OF _ this] show False by simp
qed


lemma map_of_Values_Set: "map_of (Values_Set k x v) = (map_of v)(k \<mapsto> [x])"
  by (induction v) (auto simp: fun_eq_iff)

text \<open>Parsing the encoded query gives back the values set: the query that the
  \<^verbatim>\<open>https\<close> branch writes binds the two credential parameters and leaves the others.\<close>

lemma url_Query_with_credentials:
  "map_of (url_Query (u\<lparr>RawQuery := Values_Encode (with_credentials c (url_Query u))\<rparr>))
     = (map_of (url_Query u))
         (''consumer_key'' \<mapsto> [CustomerKey (app c)],
          ''consumer_secret'' \<mapsto> [CustomerSecret (app c)])"
proof
  fix k
  show "map_of (url_Query (u\<lparr>RawQuery := Values_Encode (with_credentials c (url_Query u))\<rparr>)) k
          = ((map_of (url_Query u))
               (''consumer_key'' \<mapsto> [CustomerKey (app c)],
                ''consumer_secret'' \<mapsto> [CustomerSecret (app c)])) k"
    using url_Query_values [of u k]
    by (simp add: url_Query_def [of "u\<lparr>RawQuery := _\<rparr>"] map_of_ParseQuery_Encode
          with_credentials_def map_of_Values_Set split: option.splits list.splits)
qed

section \<open>Properties of the authentication\<close>

lemma doGetHeaders_trace:
  "\<exists>k. 0 < k
     \<and> sent (snd (doGetHeaders env c req v_given))
         = replicate k (Client (receiver (entry_state c req)), sent_request c req)
     \<and> Client (receiver (snd (doGetHeaders env c req v_given)))
         = Client (receiver (entry_state c req))"
proof -
  obtain res st where L: "attempt_loop env (sent_request c req) (entry_state c req) = (res, st)"
    by (cases "attempt_loop env (sent_request c req) (entry_state c req)")
  have "snd (doGetHeaders env c req v_given) = st"
    by (simp add: doGetHeaders_loop L split: sum.splits option.splits)
  with attempt_loop_trace [OF L] show ?thesis
    by auto
qed

lemma example_NewRequest:
  "NewRequest (example_client n) ''GET'' (Inr (example_url scheme query)) (Inr []) =
     Inr (example_request scheme query)"
  by (simp add: NewRequest_def http_NewRequest_def validMethod_def isTokenChar_def
        SetBasicAuth_def Header_Add_def Header_Set_def UserAgent_def example_client_def
        example_request_def base64_char_def Let_def)

lemma NewRequest_Authorization:
  assumes "NewRequest c method (Inr u) (Inr js) = Inr rq"
  shows "URL rq = u
       \<and> reqHeader rq ''Authorization''
           = Some [''Basic '' @ base64_EncodeToString
                                  (CustomerKey (app c) @ '':'' @ CustomerSecret (app c))]"
  using assms
  by (auto simp: NewRequest_def http_NewRequest_def SetBasicAuth_def Header_Set_def Let_def
           split: if_splits)

text \<open>
  Claim C6, as amended. For a request whose URL scheme is not \<^verbatim>\<open>https\<close>,
  \<^verbatim>\<open>doGetHeaders\<close> passes the request to \<^verbatim>\<open>c.Client.Do\<close> exactly as it received it, in
  every attempt, through the OAuth1 client made from the consumer key and secret, and
  leaves that client installed in \<^verbatim>\<open>c.Client\<close>. The request that \<^verbatim>\<open>NewRequest\<close>
  builds carries, for every scheme, the header \<^verbatim>\<open>Authorization: Basic\<close> with the base64
  encoding of \<^verbatim>\<open>key:secret\<close>.
\<close>

theorem doGetHeaders_not_https:
  assumes "Scheme (URL req) \<noteq> ''https''"
  shows "(\<exists>k. 0 < k
           \<and> sent (snd (doGetHeaders env c req v_given))
               = replicate k (OAuth1Client (CustomerKey (app c)) (CustomerSecret (app c)), req))
       \<and> Client (receiver (snd (doGetHeaders env c req v_given)))
           = OAuth1Client (CustomerKey (app c)) (CustomerSecret (app c))
       \<and> (\<forall>method u js rq. NewRequest c method (Inr u) (Inr js) = Inr rq \<longrightarrow>
             reqHeader rq ''Authorization''
               = Some [''Basic '' @ base64_EncodeToString
                                      (CustomerKey (app c) @ '':'' @ CustomerSecret (app c))])"
proof -
  have "Client (receiver (entry_state c req))
          = OAuth1Client (CustomerKey (app c)) (CustomerSecret (app c))"
       "sent_request c req = req"
    using assms by (simp_all add: entry_state_def sent_request_def authenticate_def)
  with doGetHeaders_trace [of env c req v_given] NewRequest_Authorization [of c]
  show ?thesis by auto
qed


lemma example_lib_once:
  "snd (doGetHeaders example_lib c req False)
     = after_Do (sent_request c req) (entry_state c req)"
proof -
  have "attempt example_lib (sent_request c req) (entry_state c req)
          = Return (Inr (example_response 200 Map.empty []))
              (after_Do (sent_request c req) (entry_state c req))"
    by (simp add: attempt_def after_Do_def example_lib_def example_env_def status_server_def
          example_response_def CheckResponseError_def logResponse_def logBody_def Let_def)
  then have "attempt_loop example_lib (sent_request c req) (entry_state c req)
          = (Inr (example_response 200 Map.empty []),
             after_Do (sent_request c req) (entry_state c req))"
    by (subst attempt_loop.simps) simp
  then show ?thesis
    by (simp add: doGetHeaders_loop)
qed

lemma example_query:
  "Values_Encode (Values_Set ''consumer_secret'' ''cs'' (Values_Set ''consumer_key'' ''ck''
      (fst (url_ParseQuery ''page=2&consumer_key=old''))))
     = ''consumer_key=ck&consumer_secret=cs&page=2''"
  by (simp add: Values_Encode_def url_ParseQuery_def parseQuery_pair_def strings_Cut_def
        unreserved_def)

theorem doGetHeaders_not_https_witness:
  "Scheme (URL (example_request ''http'' [])) \<noteq> ''https''
   \<and> sent (snd (doGetHeaders example_lib (example_client 0) (example_request ''http'' []) False))
       = [(OAuth1Client ''ck'' ''cs'', example_request ''http'' [])]
   \<and> Client (receiver (snd (doGetHeaders example_lib (example_client 0)
                                (example_request ''http'' []) False)))
       = OAuth1Client ''ck'' ''cs''"
proof -
  have http: "Scheme (URL (example_request ''http'' [])) \<noteq> ''https''"
    by (simp add: example_request_def example_url_def)
  have one: "length (sent (snd (doGetHeaders example_lib (example_client 0)
                                  (example_request ''http'' []) False))) = 1"
    by (simp add: example_lib_once after_Do_def)
  from doGetHeaders_not_https [OF http, of example_lib "example_client 0" False]
  show ?thesis
    using http one by (auto simp: example_client_def)
qed

theorem doGetHeaders_not_https_counterexample:
  "NewRequest (example_client 0) ''GET'' (Inr (example_url ''http'' [])) (Inr [])
     = Inr (example_request ''http'' [])
   \<and> Scheme (URL (example_request ''http'' [])) = ''http''
   \<and> Header_Get (reqHeader (example_request ''http'' [])) ''Authorization''
       = ''Basic '' @ base64_EncodeToString (''ck'' @ '':'' @ ''cs'')
   \<and> base64_EncodeToString (''ck'' @ '':'' @ ''cs'') = ''Y2s6Y3M=''
   \<and> map snd (sent (snd (doGetHeaders example_lib (example_client 0)
                            (example_request ''http'' []) False)))
       = [example_request ''http'' []]"
proof -
  have "base64_EncodeToString (''ck'' @ '':'' @ ''cs'') = ''Y2s6Y3M=''"
    by (simp add: base64_char_def)
  moreover have "Header_Get (reqHeader (example_request ''http'' [])) ''Authorization''
                   = ''Basic Y2s6Y3M=''"
    by (simp add: example_request_def Header_Get_def)
  moreover have "sent_request (example_client 0) (example_request ''http'' [])
                   = example_request ''http'' []"
    by (simp add: sent_request_def authenticate_def example_request_def example_url_def)
  moreover have "Scheme (URL (example_request ''http'' [])) = ''http''"
    by (simp add: example_request_def example_url_def)
  ultimately show ?thesis
    by (simp add: example_NewRequest example_lib_once after_Do_def)
qed

text \<open>
  Claim C7, as amended. For a request whose URL scheme is \<^verbatim>\<open>https\<close>, \<^verbatim>\<open>doGetHeaders\<close>
  sets the query parameters \<^verbatim>\<open>consumer_key\<close> and \<^verbatim>\<open>consumer_secret\<close> of the request URL
  to the key and the secret of the client: each replaces whatever values the parameter
  had, every other parameter keeps its values, and the query is encoded anew (keys in
  sorted order). Every attempt sends that request, and sends it through the client that
  \<^verbatim>\<open>c.Client\<close> held when the call began, which the call leaves in place: a plain client
  stays plain, a signing client installed earlier stays in use.
\<close>

theorem doGetHeaders_https:
  assumes "Scheme (URL req) = ''https''"
  shows "(\<exists>k. 0 < k
           \<and> sent (snd (doGetHeaders env c req v_given))
               = replicate k
                   (Client c,
                    req\<lparr>URL := (URL req)\<lparr>RawQuery :=
                            Values_Encode (with_credentials c (url_Query (URL req)))\<rparr>\<rparr>))
       \<and> Client (receiver (snd (doGetHeaders env c req v_given))) = Client c
       \<and> map_of (url_Query ((URL req)\<lparr>RawQuery :=
                    Values_Encode (with_credentials c (url_Query (URL req)))\<rparr>))
           = (map_of (url_Query (URL req)))
               (''consumer_key'' \<mapsto> [CustomerKey (app c)],
                ''consumer_secret'' \<mapsto> [CustomerSecret (app c)])"
proof -
  have "Client (receiver (entry_state c req)) = Client c"
       "sent_request c req
          = req\<lparr>URL := (URL req)\<lparr>RawQuery :=
                  Values_Encode (with_credentials c (url_Query (URL req)))\<rparr>\<rparr>"
    using assms
    by (simp_all add: entry_state_def sent_request_def authenticate_def with_credentials_def
          Let_def)
  with doGetHeaders_trace [of env c req v_given] url_Query_with_credentials [where u = "URL req" and c = c]
  show ?thesis by auto
qed

theorem doGetHeaders_https_witness:
  "Scheme (URL (example_request ''https'' ''page=2&consumer_key=old'')) = ''https''
   \<and> map fst (sent (snd (doGetHeaders example_lib (example_client 0)
         (example_request ''https'' ''page=2&consumer_key=old'') False)))
       = [DefaultHttpClient]
   \<and> map (RawQuery \<circ> URL \<circ> snd) (sent (snd (doGetHeaders example_lib (example_client 0)
         (example_request ''https'' ''page=2&consumer_key=old'') False)))
       = [''consumer_key=ck&consumer_secret=cs&page=2'']"
proof -
  let ?req = "example_request ''https'' ''page=2&consumer_key=old''"
  have https: "Scheme (URL ?req) = ''https''"
    by (simp add: example_request_def example_url_def)
  have one: "length (sent (snd (doGetHeaders example_lib (example_client 0) ?req False))) = 1"
    by (simp add: example_lib_once after_Do_def)
  have q: "Values_Encode (with_credentials (example_client 0) (url_Query (URL ?req)))
             = ''consumer_key=ck&consumer_secret=cs&page=2''"
    using example_query
    by (simp add: with_credentials_def url_Query_def example_request_def example_url_def
          example_client_def)
  from doGetHeaders_https [OF https, of example_lib "example_client 0" False]
  show ?thesis
    using https one q by (auto simp: example_client_def)
qed

theorem doGetHeaders_https_counterexample:
  "Scheme (URL (example_request ''https'' ''page=2&consumer_key=old'')) = ''https''
   \<and> map fst (sent (snd (doGetHeaders example_lib
         (receiver (snd (doGetHeaders example_lib (example_client 0)
                           (example_request ''http'' []) False)))
         (example_request ''https'' ''page=2&consumer_key=old'') False)))
       = [OAuth1Client ''ck'' ''cs'']
   \<and> map (RawQuery \<circ> URL \<circ> snd) (sent (snd (doGetHeaders example_lib
         (receiver (snd (doGetHeaders example_lib (example_client 0)
                           (example_request ''http'' []) False)))
         (example_request ''https'' ''page=2&consumer_key=old'') False)))
       = [''consumer_key=ck&consumer_secret=cs&page=2'']"
proof -
  let ?c1 = "receiver (snd (doGetHeaders example_lib (example_client 0)
                              (example_request ''http'' []) False))"
  let ?req = "example_request ''https'' ''page=2&consumer_key=old''"
  have c1: "?c1 = (example_client 0)\<lparr>Client := OAuth1Client ''ck'' ''cs'', attempts := 1\<rparr>"
    by (simp add: example_lib_once after_Do_def entry_state_def authenticate_def
          example_request_def example_url_def example_client_def)
  have https: "Scheme (URL ?req) = ''https''"
    by (simp add: example_request_def example_url_def)
  have q: "Values_Encode (Values_Set ''consumer_secret'' ''cs'' (Values_Set ''consumer_key'' ''ck''
             (url_Query (URL ?req)))) = ''consumer_key=ck&consumer_secret=cs&page=2''"
    using example_query by (simp add: url_Query_def example_request_def example_url_def)
  show ?thesis
    unfolding c1
    using https q
    by (simp add: example_lib_once after_Do_def entry_state_def sent_request_def
          authenticate_def example_client_def Let_def)
qed

section \<open>Properties of the pagination parser\<close>

lemma linkRegex_FindStringSubmatch_length:
  "length (linkRegex_FindStringSubmatch link) \<noteq> 4"
  by (simp add: linkRegex_FindStringSubmatch_def Let_def split: list.splits option.splits)

lemma extractPagination_links_Cons:
  "extractPagination_links env (link # links) pagination
     = Inl (ResponseDecodingError [] ''could not extract pagination link header'' 0)"
  by (simp add: linkRegex_FindStringSubmatch_length)

lemma extractPagination_not_empty:
  assumes "linkHeader \<noteq> []"
  shows "extractPagination env linkHeader
           = Inl (ResponseDecodingError [] ''could not extract pagination link header'' 0)"
proof -
  obtain link links where "strings_Split linkHeader (CHR '','') = link # links"
    using strings_Split_not_Nil [of linkHeader "CHR '',''"] by (cases "strings_Split linkHeader (CHR '','')") auto
  then show ?thesis
    using assms by (simp add: extractPagination_def extractPagination_links_Cons del: extractPagination_links.simps)
qed

lemma strip_prefix_append: "strip_prefix p (p @ s) = Some s"
  by (induction p) auto

lemma strip_prefix_Some: "strip_prefix p s = Some r \<Longrightarrow> s = p @ r"
  by (induction p s rule: strip_prefix.induct) (auto split: if_splits)

lemma match_rel_Some:
  "match_rel w s \<Longrightarrow> \<exists>rest. s = w @ CHR 0x22 # rest \<and> list_all (\<lambda>c. c = CHR '' '') rest"
  unfolding match_rel_def
  by (cases "strip_prefix (w @ [CHR 0x22]) s") (auto dest: strip_prefix_Some)

lemma match_rel_only_word:
  assumes "match_rel w (rel @ CHR 0x22 # replicate m (CHR '' ''))" and "CHR 0x22 \<notin> set w"
  shows "rel = w"
proof -
  from match_rel_Some [OF assms(1)] obtain rest where
    eq: "rel @ CHR 0x22 # replicate m (CHR '' '') = w @ CHR 0x22 # rest"
    and sp: "list_all (\<lambda>c. c = CHR '' '') rest"
    by blast
  have "CHR 0x22 \<notin> set rest"
  proof
    assume "CHR 0x22 \<in> set rest"
    with sp have "CHR 0x22 = CHR '' ''"
      unfolding list_all_iff by blast
    then show False by simp
  qed
  from append_Cons_eq_iff [OF assms(2) this, of rel "replicate m (CHR '' '')"] eq
  show ?thesis by metis
qed

lemma linkRegex_unknown_rel:
  assumes "rel \<notin> set rel_words" and "CHR ''>'' \<notin> set u"
  shows \<open>linkRegex_FindStringSubmatch
           (replicate n (CHR '' '') @ ''<'' @ u @ ''>; rel="'' @ rel @ [CHR 0x22]
              @ replicate m (CHR '' '')) = []\<close>
proof -
  let ?tail = \<open>''>; rel="'' @ rel @ [CHR 0x22] @ replicate m (CHR '' '')\<close>
  have d: "dropWhile (\<lambda>c. c = CHR '' '') (replicate n (CHR '' '') @ ''<'' @ u @ ?tail)
             = ''<'' @ u @ ?tail"
    by (induction n) simp_all
  have t: "takeWhile (\<lambda>c. c \<noteq> CHR ''>'') (u @ ?tail) = u"
          "dropWhile (\<lambda>c. c \<noteq> CHR ''>'') (u @ ?tail) = ?tail"
    using assms(2) by (induction u) auto
  have s: \<open>strip_prefix ''>; rel="'' ?tail = Some (rel @ CHR 0x22 # replicate m (CHR '' ''))\<close>
    using strip_prefix_append [of \<open>''>; rel="''\<close> "rel @ CHR 0x22 # replicate m (CHR '' '')"]
    by simp
  have "\<And>w. w \<in> set rel_words \<Longrightarrow> \<not> match_rel w (rel @ CHR 0x22 # replicate m (CHR '' ''))"
  proof
    fix w assume w: "w \<in> set rel_words"
      and m: "match_rel w (rel @ CHR 0x22 # replicate m (CHR '' ''))"
    from w have "CHR 0x22 \<notin> set w" by (auto simp: rel_words_def)
    from match_rel_only_word [OF m this] w assms(1) show False by simp
  qed
  then have f: "filter (\<lambda>w. match_rel w (rel @ CHR 0x22 # replicate m (CHR '' ''))) rel_words = []"
    by (simp add: filter_empty_conv)
  show ?thesis
    unfolding linkRegex_FindStringSubmatch_def d
    using t s f by (simp add: Let_def)
qed

text \<open>
  Claim C8, as amended. An entry of the \<^verbatim>\<open>Link\<close> header of the shape
  \<^verbatim>\<open><URL>; rel="REL"\<close> (spaces around it allowed) whose \<^verbatim>\<open>REL\<close> is not one of
  \<^verbatim>\<open>prev\<close>, \<^verbatim>\<open>next\<close>, \<^verbatim>\<open>first\<close>, \<^verbatim>\<open>last\<close> does not match the link expression, and a
  header with such an entry makes \<^verbatim>\<open>extractPagination\<close> return an error and no
  pagination.
\<close>

theorem extractPagination_unknown_rel:
  assumes "rel \<notin> set rel_words" and "u \<noteq> []" and "CHR ''>'' \<notin> set u"
    and \<open>entry = replicate n (CHR '' '') @ ''<'' @ u @ ''>; rel="'' @ rel @ [CHR 0x22]
                   @ replicate m (CHR '' '')\<close>
    and "entry \<in> set (strings_Split linkHeader (CHR '',''))"
  shows "linkRegex_FindStringSubmatch entry = [] \<and> isl (extractPagination env linkHeader)"
proof -
  have "linkHeader \<noteq> []"
    using assms(4,5) by auto
  then show ?thesis
    using linkRegex_unknown_rel [OF assms(1,3), of n m] assms(4)
    by (simp add: extractPagination_not_empty)
qed

theorem extractPagination_unknown_rel_witness:
  \<open>''up'' \<notin> set rel_words
   \<and> '' <https://x/p?page=2>; rel="up"''
       \<in> set (strings_Split ''<https://x/p?page=1>; rel="next", <https://x/p?page=2>; rel="up"''
                (CHR '',''))
   \<and> linkRegex_FindStringSubmatch '' <https://x/p?page=2>; rel="up"'' = []
   \<and> isl (extractPagination example_lib
             ''<https://x/p?page=1>; rel="next", <https://x/p?page=2>; rel="up"'')\<close>
proof -
  have w: "''up'' \<notin> set rel_words"
    by (simp add: rel_words_def)
  have e: \<open>'' <https://x/p?page=2>; rel="up"''
             = replicate 1 (CHR '' '') @ ''<'' @ ''https://x/p?page=2'' @ ''>; rel="'' @ ''up''
                 @ [CHR 0x22] @ replicate 0 (CHR '' '')\<close>
    by simp
  have i: \<open>'' <https://x/p?page=2>; rel="up"''
       \<in> set (strings_Split ''<https://x/p?page=1>; rel="next", <https://x/p?page=2>; rel="up"''
                (CHR '',''))\<close>
    by simp
  from extractPagination_unknown_rel [OF w _ _ e i, of example_lib]
  show ?thesis using w i by simp
qed

theorem extractPagination_unknown_rel_counterexample:
  \<open>linkRegex_FindStringSubmatch ''<https://x/p?page=2>; rel="up"'' = []
   \<and> extractPagination example_lib ''<https://x/p?page=2>; rel="up"''
       = Inl (ResponseDecodingError [] ''could not extract pagination link header'' 0)\<close>
proof -
  have \<open>linkRegex_FindStringSubmatch ''<https://x/p?page=2>; rel="up"'' = []\<close>
    by (simp add: linkRegex_FindStringSubmatch_def match_rel_def rel_words_def)
  then show ?thesis
    by (simp add: extractPagination_def)
qed

text \<open>
  Claim C9, on the code. For the header of the claim \<^verbatim>\<open>extractPagination\<close> returns the
  error \<^verbatim>\<open>could not extract pagination link header\<close> and no pagination: the first
  entry matches the link expression, and the match has three elements (the whole match
  and the two groups), which the test \<^verbatim>\<open>len(match) != 4\<close> refuses.
\<close>

theorem extractPagination_next_last:
  \<open>extractPagination env
      ''<https://x/wc/v3/products?page=2>; rel="next", <https://x/wc/v3/products?page=5>; rel="last"''
     = Inl (ResponseDecodingError [] ''could not extract pagination link header'' 0)
   \<and> linkRegex_FindStringSubmatch ''<https://x/wc/v3/products?page=2>; rel="next"''
     = [''<https://x/wc/v3/products?page=2>; rel="next"'', ''https://x/wc/v3/products?page=2'',
        ''next'']
   \<and> hd (strings_Split
       ''<https://x/wc/v3/products?page=2>; rel="next", <https://x/wc/v3/products?page=5>; rel="last"''
       (CHR '','')) = ''<https://x/wc/v3/products?page=2>; rel="next"''\<close>
proof -
  have \<open>linkRegex_FindStringSubmatch ''<https://x/wc/v3/products?page=2>; rel="next"''
     = [''<https://x/wc/v3/products?page=2>; rel="next"'', ''https://x/wc/v3/products?page=2'',
        ''next'']\<close>
    by (simp add: linkRegex_FindStringSubmatch_def match_rel_def rel_words_def)
  moreover have \<open>hd (strings_Split
       ''<https://x/wc/v3/products?page=2>; rel="next", <https://x/wc/v3/products?page=5>; rel="last"''
       (CHR '','')) = ''<https://x/wc/v3/products?page=2>; rel="next"''\<close>
    by simp
  ultimately show ?thesis
    by (simp add: extractPagination_not_empty)
qed

end
